theory Spec2Isabelle
  imports Main "HOL-Library.Word"
begin

section \<open>Python values used by \<open>tools/run_block.py\<close>\<close>

text \<open>
  A Python \<open>bytes\<close> object is a list of octets. A Python \<open>str\<close> is a sequence of Unicode
  code points, kept here as a list of naturals; \<open>py_str\<close> embeds an ASCII literal of the
  source.
\<close>

type_synonym bytes = "8 word list"
type_synonym pystr = "nat list"

definition py_str :: "string \<Rightarrow> pystr" where
  "py_str s = map of_char s"

text \<open>The exceptions that the modelled code paths can raise.\<close>

datatype py_error =
    IndexError
  | TypeError
  | AttributeError
  | ValueError
  | UnicodeDecodeError
  | AssertionError
  | RuntimeError
  | FileNotFoundError
  | CoinNotFound
  | CostExceeded
  | ConsensusError nat

text \<open>
  What \<open>Program.as_python()\<close> hands to the scan of \<open>run_generator\<close>: byte strings for
  atoms, Python lists, and pairs (2-tuples).
\<close>

datatype pyval = PBytes bytes | PList "pyval list" | PTuple pyval pyval

text \<open>
  The values \<open>as_python()\<close> builds from the result of a program. An atom gives a byte
  string, and the empty list (nil) is the empty atom, so it gives \<open>b''\<close>. A pair gives the
  list \<open>[left]\<close> when its right side gives \<open>b''\<close>, the list \<open>[left] + right\<close> when its right
  side gives a list, and the 2-tuple \<open>(left, right)\<close> otherwise. So no list inside such a
  value is empty.
\<close>

fun clvm_value :: "pyval \<Rightarrow> bool" where
  "clvm_value (PBytes bs) = True"
| "clvm_value (PList xs) = (xs \<noteq> [] \<and> list_all clvm_value xs)"
| "clvm_value (PTuple a b) = (clvm_value a \<and> clvm_value b)"

subsection \<open>\<open>bytes.hex()\<close>\<close>

definition hexdigit :: "nat \<Rightarrow> nat" where
  "hexdigit n = py_str ''0123456789abcdef'' ! n"

definition byte_hex :: "8 word \<Rightarrow> pystr" where
  "byte_hex b = [hexdigit (unat b div 16), hexdigit (unat b mod 16)]"

definition bytes_hex :: "bytes \<Rightarrow> pystr" where
  "bytes_hex bs = concat (map byte_hex bs)"

subsection \<open>\<open>bytes.decode("utf-8")\<close>\<close>

text \<open>
  The strict UTF-8 decoder of Python: shortest form only, no surrogates, nothing above
  U+10FFFF. \<open>utf8_points\<close> works on the octets as naturals and gives \<open>None\<close> where Python
  raises \<open>UnicodeDecodeError\<close>.
\<close>

definition is_cont :: "nat \<Rightarrow> bool" where
  "is_cont b = (128 \<le> b \<and> b \<le> 191)"

fun utf8_points :: "nat list \<Rightarrow> pystr option" where
  "utf8_points [] = Some []"
| "utf8_points [b0] = (if b0 < 128 then Some [b0] else None)"
| "utf8_points [b0, b1] =
     (if b0 < 128 then map_option ((#) b0) (utf8_points [b1])
      else if 194 \<le> b0 \<and> b0 \<le> 223 \<and> is_cont b1
        then Some [(b0 - 192) * 64 + (b1 - 128)]
      else None)"
| "utf8_points [b0, b1, b2] =
     (if b0 < 128 then map_option ((#) b0) (utf8_points [b1, b2])
      else if 194 \<le> b0 \<and> b0 \<le> 223 \<and> is_cont b1
        then map_option ((#) ((b0 - 192) * 64 + (b1 - 128))) (utf8_points [b2])
      else if 224 \<le> b0 \<and> b0 \<le> 239 \<and> is_cont b1 \<and> is_cont b2
              \<and> (b0 = 224 \<longrightarrow> 160 \<le> b1) \<and> (b0 = 237 \<longrightarrow> b1 \<le> 159)
        then Some [(b0 - 224) * 4096 + (b1 - 128) * 64 + (b2 - 128)]
      else None)"
| "utf8_points (b0 # b1 # b2 # b3 # bs) =
     (if b0 < 128 then map_option ((#) b0) (utf8_points (b1 # b2 # b3 # bs))
      else if 194 \<le> b0 \<and> b0 \<le> 223 \<and> is_cont b1
        then map_option ((#) ((b0 - 192) * 64 + (b1 - 128))) (utf8_points (b2 # b3 # bs))
      else if 224 \<le> b0 \<and> b0 \<le> 239 \<and> is_cont b1 \<and> is_cont b2
              \<and> (b0 = 224 \<longrightarrow> 160 \<le> b1) \<and> (b0 = 237 \<longrightarrow> b1 \<le> 159)
        then map_option ((#) ((b0 - 224) * 4096 + (b1 - 128) * 64 + (b2 - 128)))
               (utf8_points (b3 # bs))
      else if 240 \<le> b0 \<and> b0 \<le> 244 \<and> is_cont b1 \<and> is_cont b2 \<and> is_cont b3
              \<and> (b0 = 240 \<longrightarrow> 144 \<le> b1) \<and> (b0 = 244 \<longrightarrow> b1 \<le> 143)
        then map_option
               ((#) ((b0 - 240) * 262144 + (b1 - 128) * 4096 + (b2 - 128) * 64 + (b3 - 128)))
               (utf8_points bs)
      else None)"

definition decode_utf8 :: "bytes \<Rightarrow> py_error + pystr" where
  "decode_utf8 bs =
     (case utf8_points (map unat bs) of
        None \<Rightarrow> Inl UnicodeDecodeError
      | Some s \<Rightarrow> Inr s)"

section \<open>The memo scan of \<open>run_generator\<close>\<close>

text \<open>
  One pass of the body of \<open>for condition in result.as_python()\<close>. \<open>cc\<close> is the byte value
  of \<open>ConditionOpcode.CREATE_COIN\<close>; \<open>memo\<close> is the variable of that name. The body either
  falls through to the next condition, or leaves the loop by \<open>break\<close> with the memo it
  has then, or raises.
\<close>

datatype loop_ctl = Continue | Break pystr

definition retirement_sentinel_hex :: pystr where
  "retirement_sentinel_hex =
     py_str ''0000000000000000000000000000000000000000000000000000000000000000''"

definition memo_payload :: "pystr \<Rightarrow> pyval list \<Rightarrow> py_error + loop_ctl" where
  "memo_payload memo ys =
     (case ys of
        [] \<Rightarrow> Inl IndexError
      | y0 # _ \<Rightarrow>
          (case y0 of
             PBytes h \<Rightarrow>
               if bytes_hex h = retirement_sentinel_hex then
                 (if length ys \<ge> 2 then
                    (case ys ! 1 of
                       PBytes m \<Rightarrow>
                         (case decode_utf8 m of
                            Inl e \<Rightarrow> Inl e
                          | Inr s \<Rightarrow> Inr (Break s))
                     | _ \<Rightarrow> Inl AttributeError)
                  else Inr (Break memo))
               else Inr Continue
           | _ \<Rightarrow> Inl AttributeError))"

definition scan_condition :: "bytes \<Rightarrow> pystr \<Rightarrow> pyval \<Rightarrow> py_error + loop_ctl" where
  "scan_condition cc memo condition =
     (case condition of
        PBytes bs \<Rightarrow> (if bs = [] then Inl IndexError else Inr Continue)
      | PTuple a b \<Rightarrow> Inr Continue
      | PList xs \<Rightarrow>
          (case xs of
             [] \<Rightarrow> Inl IndexError
           | x0 # _ \<Rightarrow>
               if x0 = PBytes cc \<and> length xs \<ge> 4 then
                 (case xs ! 3 of
                    PList ys \<Rightarrow> memo_payload memo ys
                  | _ \<Rightarrow> Inr Continue)
               else Inr Continue))"

fun scan_conditions :: "bytes \<Rightarrow> pystr \<Rightarrow> pyval list \<Rightarrow> py_error + pystr" where
  "scan_conditions cc memo [] = Inr memo"
| "scan_conditions cc memo (condition # rest) =
     (case scan_condition cc memo condition of
        Inl e \<Rightarrow> Inl e
      | Inr (Break m) \<Rightarrow> Inr m
      | Inr Continue \<Rightarrow> scan_conditions cc memo rest)"

text \<open>
  \<open>memo = ""\<close> followed by the loop over whatever \<open>as_python()\<close> returned: a list is
  walked element by element, a pair as its two components, and a byte string octet by
  octet, where indexing the first integer raises \<open>TypeError\<close>.
\<close>

definition extract_memo :: "bytes \<Rightarrow> pyval \<Rightarrow> py_error + pystr" where
  "extract_memo cc v =
     (case v of
        PList conds \<Rightarrow> scan_conditions cc [] conds
      | PTuple a b \<Rightarrow> scan_conditions cc [] [a, b]
      | PBytes bs \<Rightarrow> (if bs = [] then Inr [] else Inl TypeError))"

section \<open>The records of the pipeline\<close>

text \<open>
  A member of the enumeration \<open>ConditionOpcode\<close> is a byte string (the enumeration
  derives from \<open>bytes\<close>), so an opcode is kept as its byte value.
\<close>

record ConditionWithArgs =
  opcode :: bytes
  vars :: "bytes list"

record NPC =
  coin_name :: bytes
  puzzle_hash :: bytes
  conditions :: "(bytes \<times> ConditionWithArgs list) list"

record NPCResult =
  error :: "nat option"
  npc_list :: "NPC list"
  clvm_cost :: nat

record CAT =
  tail_hash :: pystr
  memo :: pystr
  npc :: NPC

record 'p GeneratorArg =
  block_height :: nat
  generator :: 'p

record 'p BlockGenerator =
  program :: 'p
  generator_refs :: "'p GeneratorArg list"

record ConsensusConstants =
  MAX_BLOCK_COST_CLVM :: nat
  COST_PER_BYTE :: nat

record 'p FullBlock =
  transactions_generator :: "'p option"
  transactions_generator_ref_list :: "nat list"

text \<open>
  The block record as \<open>json.load\<close> returns it in \<open>run_json_block_file\<close>: the generator is
  a hex string or JSON \<open>null\<close>.
\<close>

record JsonBlock =
  json_transactions_generator :: "pystr option"
  json_transactions_generator_ref_list :: "nat list"

datatype json = JStr pystr | JList "json list" | JDict "(pystr \<times> json) list"

section \<open>The collaborators\<close>

text \<open>
  \<open>run_block.py\<close> imports the execution engine, the puzzle lookup, the template matcher,
  the program type and the opcode enumeration. They are parameters of the model, with
  \<open>'p\<close> the type of programs:
  \<^item> \<open>CREATE_COIN\<close> and \<open>opcode_name\<close>: the value of \<open>ConditionOpcode.CREATE_COIN\<close> and the
    \<open>.name\<close> of an opcode;
  \<^item> \<open>get_name_puzzle_conditions\<close>, \<open>get_puzzle_and_solution_for_coin\<close> and
    \<open>match_cat_puzzle\<close>, with the arguments the source passes;
  \<^item> \<open>program_run\<close>, \<open>as_python\<close>, \<open>program_bytes\<close> and \<open>fromhex\<close>: \<open>puzzle.run(solution)\<close>,
    \<open>result.as_python()\<close>, \<open>bytes(tail_hash)\<close> and \<open>SerializedProgram.fromhex\<close>;
  \<^item> \<open>read_generator_json\<close>: opening \<open>{height}.json\<close>, loading it and reading
    \<open>["block"]["transactions_generator"]\<close>.
\<close>

record 'p env =
  CREATE_COIN :: bytes
  opcode_name :: "bytes \<Rightarrow> pystr"
  get_name_puzzle_conditions :: "'p BlockGenerator \<Rightarrow> nat \<Rightarrow> nat \<Rightarrow> bool \<Rightarrow> NPCResult"
  get_puzzle_and_solution_for_coin ::
    "'p BlockGenerator \<Rightarrow> bytes \<Rightarrow> nat \<Rightarrow> py_error + (nat \<times> 'p \<times> 'p)"
  match_cat_puzzle :: "'p \<Rightarrow> bool \<times> 'p list"
  program_run :: "'p \<Rightarrow> 'p \<Rightarrow> py_error + 'p"
  as_python :: "'p \<Rightarrow> pyval"
  program_bytes :: "'p \<Rightarrow> bytes"
  fromhex :: "pystr \<Rightarrow> py_error + 'p"
  read_generator_json :: "nat \<Rightarrow> py_error + pystr"

section \<open>Calls and exceptions\<close>

text \<open>
  A computation returns the calls it made to the outside, in order, and either the
  exception that ended it or its value.
\<close>

datatype 'p call =
    ReadRecord nat
  | Execute "'p BlockGenerator"
  | Resolve bytes
  | MatchCat 'p
  | RunPuzzle 'p 'p
  | Print json

type_synonym ('p, 'a) io = "'p call list \<times> (py_error + 'a)"

definition io_return :: "'a \<Rightarrow> ('p, 'a) io" where
  "io_return x = ([], Inr x)"

definition io_raise :: "py_error \<Rightarrow> ('p, 'a) io" where
  "io_raise e = ([], Inl e)"

definition io_lift :: "py_error + 'a \<Rightarrow> ('p, 'a) io" where
  "io_lift r = ([], r)"

definition io_call :: "'p call \<Rightarrow> py_error + 'a \<Rightarrow> ('p, 'a) io" where
  "io_call c r = ([c], r)"

definition io_bind :: "('p, 'a) io \<Rightarrow> ('a \<Rightarrow> ('p, 'b) io) \<Rightarrow> ('p, 'b) io" where
  "io_bind m f =
     (case m of
        (t, Inl e) \<Rightarrow> (t, Inl e)
      | (t, Inr x) \<Rightarrow> (case f x of (t', r) \<Rightarrow> (t @ t', r)))"

section \<open>\<open>run_generator\<close>\<close>

text \<open>The body of \<open>for npc in npc_result.npc_list\<close>, returning \<open>cat_list\<close> as it leaves it.\<close>

definition process_npc ::
  "'p env \<Rightarrow> 'p BlockGenerator \<Rightarrow> ConsensusConstants \<Rightarrow> CAT list \<Rightarrow> NPC \<Rightarrow> ('p, CAT list) io"
where
  "process_npc E block_generator constants cat_list n =
     io_bind
       (io_call (Resolve (coin_name n))
          (get_puzzle_and_solution_for_coin E block_generator (coin_name n)
             (MAX_BLOCK_COST_CLVM constants)))
       (\<lambda>(_, puzzle, solution).
          io_bind (io_call (MatchCat puzzle) (Inr (match_cat_puzzle E puzzle)))
            (\<lambda>(matched, curried_args).
               if matched then
                 (case curried_args of
                    [_, tail, _] \<Rightarrow>
                      io_bind
                        (io_call (RunPuzzle puzzle solution) (program_run E puzzle solution))
                        (\<lambda>result.
                           io_bind
                             (io_lift (extract_memo (CREATE_COIN E) (as_python E result)))
                             (\<lambda>m. io_return
                                (cat_list @
                                  [\<lparr>tail_hash = drop 2 (bytes_hex (program_bytes E tail)),
                                    memo = m, npc = n\<rparr>])))
                  | _ \<Rightarrow> io_raise ValueError)
               else io_return cat_list))"

fun for_npcs ::
  "'p env \<Rightarrow> 'p BlockGenerator \<Rightarrow> ConsensusConstants \<Rightarrow> CAT list \<Rightarrow> NPC list \<Rightarrow> ('p, CAT list) io"
where
  "for_npcs E block_generator constants cat_list [] = io_return cat_list"
| "for_npcs E block_generator constants cat_list (n # rest) =
     io_bind (process_npc E block_generator constants cat_list n)
       (\<lambda>cat_list'. for_npcs E block_generator constants cat_list' rest)"

definition run_generator ::
  "'p env \<Rightarrow> 'p BlockGenerator \<Rightarrow> ConsensusConstants \<Rightarrow> ('p, CAT list) io"
where
  "run_generator E block_generator constants =
     io_bind
       (io_call (Execute block_generator)
          (Inr (get_name_puzzle_conditions E block_generator
                  (MAX_BLOCK_COST_CLVM constants) (COST_PER_BYTE constants) False)))
       (\<lambda>npc_result.
          case error npc_result of
            Some code \<Rightarrow> io_raise (ConsensusError code)
          | None \<Rightarrow> for_npcs E block_generator constants [] (npc_list npc_result))"

section \<open>The entry points\<close>

fun ref_list_to_args_from ::
  "'p env \<Rightarrow> 'p GeneratorArg list \<Rightarrow> nat list \<Rightarrow> ('p, 'p GeneratorArg list) io"
where
  "ref_list_to_args_from E args [] = io_return args"
| "ref_list_to_args_from E args (height # rest) =
     io_bind (io_call (ReadRecord height) (read_generator_json E height))
       (\<lambda>program_str.
          io_bind (io_lift (fromhex E program_str))
            (\<lambda>prog. ref_list_to_args_from E
               (args @ [\<lparr>block_height = height, generator = prog\<rparr>]) rest))"

definition ref_list_to_args :: "'p env \<Rightarrow> nat list \<Rightarrow> ('p, 'p GeneratorArg list) io" where
  "ref_list_to_args E ref_list = ref_list_to_args_from E [] ref_list"

definition run_full_block ::
  "'p env \<Rightarrow> 'p FullBlock \<Rightarrow> ConsensusConstants \<Rightarrow> ('p, CAT list) io"
where
  "run_full_block E block constants =
     io_bind (ref_list_to_args E (transactions_generator_ref_list block))
       (\<lambda>generator_args.
          case transactions_generator block of
            None \<Rightarrow> io_raise RuntimeError
          | Some g \<Rightarrow>
              run_generator E \<lparr>program = g, generator_refs = generator_args\<rparr> constants)"

text \<open>
  \<open>not generator_program_hex\<close> holds of the empty string and of \<open>None\<close>, which is what
  \<open>run_json_block_file\<close> passes for a JSON \<open>null\<close>.
\<close>

definition run_generator_with_args ::
  "'p env \<Rightarrow> pystr option \<Rightarrow> 'p GeneratorArg list \<Rightarrow> ConsensusConstants \<Rightarrow> ('p, CAT list) io"
where
  "run_generator_with_args E generator_program_hex generator_args constants =
     (case generator_program_hex of
        None \<Rightarrow> io_return []
      | Some h \<Rightarrow>
          if h = [] then io_return []
          else
            io_bind (io_lift (fromhex E h))
              (\<lambda>generator_program.
                 run_generator E
                   \<lparr>program = generator_program, generator_refs = generator_args\<rparr>
                   constants))"

section \<open>Serialisation\<close>

fun collect :: "('a \<Rightarrow> py_error + 'b) \<Rightarrow> 'a list \<Rightarrow> py_error + 'b list" where
  "collect f [] = Inr []"
| "collect f (x # xs) =
     (case f x of
        Inl e \<Rightarrow> Inl e
      | Inr y \<Rightarrow> (case collect f xs of Inl e \<Rightarrow> Inl e | Inr ys \<Rightarrow> Inr (y # ys)))"

definition condition_with_args_to_dict :: "'p env \<Rightarrow> ConditionWithArgs \<Rightarrow> json" where
  "condition_with_args_to_dict E condition_with_args =
     JDict
       [(py_str ''condition_opcode'', JStr (opcode_name E (opcode condition_with_args))),
        (py_str ''arguments'', JList (map (\<lambda>arg. JStr (bytes_hex arg)) (vars condition_with_args)))]"

definition condition_list_to_dict ::
  "'p env \<Rightarrow> bytes \<times> ConditionWithArgs list \<Rightarrow> py_error + json"
where
  "condition_list_to_dict E condition_list =
     (if list_all (\<lambda>cwa. fst condition_list = opcode cwa) (snd condition_list)
      then Inr (JList (map (condition_with_args_to_dict E) (snd condition_list)))
      else Inl AssertionError)"

definition npc_to_dict :: "'p env \<Rightarrow> NPC \<Rightarrow> py_error + json" where
  "npc_to_dict E n =
     (case collect
             (\<lambda>c. case condition_list_to_dict E c of
                     Inl e \<Rightarrow> Inl e
                   | Inr d \<Rightarrow>
                       Inr (JDict [(py_str ''condition_type'', JStr (opcode_name E (fst c))),
                                   (py_str ''conditions'', d)]))
             (conditions n) of
        Inl e \<Rightarrow> Inl e
      | Inr cs \<Rightarrow>
          Inr (JDict [(py_str ''coin_name'', JStr (bytes_hex (coin_name n))),
                      (py_str ''conditions'', JList cs),
                      (py_str ''puzzle_hash'', JStr (bytes_hex (puzzle_hash n)))]))"

definition cat_to_dict :: "'p env \<Rightarrow> CAT \<Rightarrow> py_error + json" where
  "cat_to_dict E c =
     (case npc_to_dict E (npc c) of
        Inl e \<Rightarrow> Inl e
      | Inr d \<Rightarrow>
          Inr (JDict [(py_str ''tail_hash'', JStr (tail_hash c)),
                      (py_str ''memo'', JStr (memo c)),
                      (py_str ''npc'', d)]))"

text \<open>
  \<open>run_json_block_file\<close> from the point where the configuration and the block file have
  been loaded. What it prints is the value handed to \<open>json.dumps\<close>.
\<close>

definition run_json_block_file ::
  "'p env \<Rightarrow> JsonBlock \<Rightarrow> ConsensusConstants \<Rightarrow> ('p, unit) io"
where
  "run_json_block_file E full_block constants =
     io_bind (ref_list_to_args E (json_transactions_generator_ref_list full_block))
       (\<lambda>args.
          io_bind
            (run_generator_with_args E (json_transactions_generator full_block) args constants)
            (\<lambda>cat_list.
               io_bind (io_lift (collect (cat_to_dict E) cat_list))
                 (\<lambda>ds. io_call (Print (JList ds)) (Inr ()))))"

section \<open>The memo rule as the specification words it\<close>

text \<open>
  The specification of the memo extractor, to be compared with \<open>extract_memo\<close>: a
  condition qualifies when it is a \<open>CREATE_COIN\<close> condition of at least four elements whose
  fourth element is a list with the 32-byte all-zero retirement sentinel as first
  element; the memo is read from the first qualifying condition, as the UTF-8 decoding
  of the second element of that list when there is one, and is empty otherwise.
\<close>

definition retirement_sentinel :: bytes where
  "retirement_sentinel = replicate 32 0"

definition qualifies :: "bytes \<Rightarrow> pyval \<Rightarrow> bool" where
  "qualifies cc condition =
     (case condition of
        PList xs \<Rightarrow>
          xs \<noteq> [] \<and> hd xs = PBytes cc \<and> length xs \<ge> 4 \<and>
          (case xs ! 3 of
             PList ys \<Rightarrow> ys \<noteq> [] \<and> hd ys = PBytes retirement_sentinel
           | _ \<Rightarrow> False)
      | _ \<Rightarrow> False)"

definition payload_memo :: "pyval \<Rightarrow> py_error + pystr" where
  "payload_memo condition =
     (case condition of
        PList xs \<Rightarrow>
          (case xs ! 3 of
             PList ys \<Rightarrow>
               if length ys \<ge> 2 then
                 (case ys ! 1 of
                    PBytes m \<Rightarrow> decode_utf8 m
                  | _ \<Rightarrow> Inl AttributeError)
               else Inr []
           | _ \<Rightarrow> Inr [])
      | _ \<Rightarrow> Inr [])"



section \<open>Predicates on coins and calls\<close>

text \<open>Whether the puzzle resolved for a coin matches the CAT template.\<close>

definition puzzle_matches ::
  "'p env \<Rightarrow> 'p BlockGenerator \<Rightarrow> ConsensusConstants \<Rightarrow> NPC \<Rightarrow> bool"
where
  "puzzle_matches E block_generator constants n =
     (case get_puzzle_and_solution_for_coin E block_generator (coin_name n)
             (MAX_BLOCK_COST_CLVM constants) of
        Inl e \<Rightarrow> False
      | Inr (k, puzzle, solution) \<Rightarrow> fst (match_cat_puzzle E puzzle))"

definition is_resolve :: "'p call \<Rightarrow> bool" where
  "is_resolve c = (case c of Resolve name \<Rightarrow> True | _ \<Rightarrow> False)"

definition is_execute :: "'p call \<Rightarrow> bool" where
  "is_execute c = (case c of Execute g \<Rightarrow> True | _ \<Rightarrow> False)"

section \<open>The grouping of conditions\<close>

text \<open>
  Modelled from the spec: the Condition Normalizer and the NPC Assembler, which live in
  \<open>chia.full_node.mempool_check_conditions\<close> and are not part of \<open>tools/run_block.py\<close>.
  The normalizer turns a raw pair of opcode tag and argument list into a
  \<open>ConditionWithArgs\<close>, arguments verbatim; the assembler groups the flat condition list of
  a coin by opcode, keeping the order in which the groups first occur and the order
  within each group.
\<close>

definition normalize_condition :: "bytes \<times> bytes list \<Rightarrow> ConditionWithArgs" where
  "normalize_condition raw = \<lparr>opcode = fst raw, vars = snd raw\<rparr>"

fun add_condition ::
  "ConditionWithArgs \<Rightarrow> (bytes \<times> ConditionWithArgs list) list
     \<Rightarrow> (bytes \<times> ConditionWithArgs list) list"
where
  "add_condition cwa [] = [(opcode cwa, [cwa])]"
| "add_condition cwa ((k, g) # groups) =
     (if k = opcode cwa then (k, g @ [cwa]) # groups
      else (k, g) # add_condition cwa groups)"

definition group_conditions ::
  "ConditionWithArgs list \<Rightarrow> (bytes \<times> ConditionWithArgs list) list"
where
  "group_conditions cwas = foldl (\<lambda>groups cwa. add_condition cwa groups) [] cwas"

definition assemble_npc :: "bytes \<Rightarrow> bytes \<Rightarrow> (bytes \<times> bytes list) list \<Rightarrow> NPC" where
  "assemble_npc name ph raw =
     \<lparr>coin_name = name, puzzle_hash = ph,
      conditions = group_conditions (map normalize_condition raw)\<rparr>"

section \<open>The record a matched coin gives\<close>

text \<open>
  \<open>cat_of\<close> says that a record is the one \<open>run_generator\<close> appends for the coin it names:
  the puzzle resolved for the coin matches, the tail hash is rendered from the second
  curried argument and the memo is what the scan of the re-executed puzzle returned.
\<close>

definition cat_of ::
  "'p env \<Rightarrow> 'p BlockGenerator \<Rightarrow> ConsensusConstants \<Rightarrow> CAT \<Rightarrow> bool"
where
  "cat_of E bg c x =
     (\<exists>k puzzle solution a th b result.
        get_puzzle_and_solution_for_coin E bg (coin_name (npc x)) (MAX_BLOCK_COST_CLVM c)
          = Inr (k, puzzle, solution)
      \<and> match_cat_puzzle E puzzle = (True, [a, th, b])
      \<and> program_run E puzzle solution = Inr result
      \<and> extract_memo (CREATE_COIN E) (as_python E result) = Inr (memo x)
      \<and> tail_hash x = drop 2 (bytes_hex (program_bytes E th)))"


section \<open>A small block for the worked examples\<close>

text \<open>
  Programs are numbered. Coin \<open>[1]\<close> is a CAT whose puzzle \<open>10\<close>, run on solution \<open>11\<close>, creates
  three coins, the second and third with a memo payload; coin \<open>[2]\<close> is not a CAT; coin
  \<open>[3]\<close> is a CAT whose memo bytes are not UTF-8; coin \<open>[4]\<close> cannot be resolved.
\<close>

definition demo_npc_a :: NPC where
  "demo_npc_a =
     \<lparr>coin_name = [1], puzzle_hash = [10],
      conditions =
        [([51], [\<lparr>opcode = [51], vars = [[7], [1]]\<rparr>, \<lparr>opcode = [51], vars = [[9], [2]]\<rparr>]),
         ([50], [\<lparr>opcode = [50], vars = [[8]]\<rparr>])]\<rparr>"

definition demo_npc_b :: NPC where
  "demo_npc_b = \<lparr>coin_name = [2], puzzle_hash = [20], conditions = []\<rparr>"

definition demo_npc_c :: NPC where
  "demo_npc_c = \<lparr>coin_name = [3], puzzle_hash = [30], conditions = []\<rparr>"

definition demo_npc_d :: NPC where
  "demo_npc_d = \<lparr>coin_name = [4], puzzle_hash = [40], conditions = []\<rparr>"

definition demo_conditions :: "pyval list" where
  "demo_conditions =
     [PList [PBytes [51], PBytes [7], PBytes [1]],
      PList [PBytes [51], PBytes [9], PBytes [2],
             PList [PBytes retirement_sentinel, PBytes [104, 105]]],
      PList [PBytes [51], PBytes [9], PBytes [3],
             PList [PBytes retirement_sentinel, PBytes [108, 97, 116, 101, 114]]]]"

definition demo_bad_conditions :: "pyval list" where
  "demo_bad_conditions =
     [PList [PBytes [51], PBytes [9], PBytes [2],
             PList [PBytes retirement_sentinel, PBytes [255]]]]"

definition demo_env :: "nat option \<Rightarrow> NPC list \<Rightarrow> nat env" where
  "demo_env err npcs =
     \<lparr>CREATE_COIN = [51],
      opcode_name = (\<lambda>op. if op = [51] then py_str ''CREATE_COIN'' else py_str ''AGG_SIG_ME''),
      get_name_puzzle_conditions =
        (\<lambda>g max_cost cost_per_byte mempool_mode.
           \<lparr>error = err, npc_list = npcs, clvm_cost = 0\<rparr>),
      get_puzzle_and_solution_for_coin =
        (\<lambda>g name max_cost.
           if name = [1] then Inr (0, 10, 11)
           else if name = [2] then Inr (0, 20, 21)
           else if name = [3] then Inr (0, 30, 31)
           else Inl CoinNotFound),
      match_cat_puzzle =
        (\<lambda>p. if p = 10 \<or> p = 30 then (True, [100, 101, 102]) else (False, [])),
      program_run =
        (\<lambda>p s. if p = 10 \<and> s = 11 then Inr 12
                else if p = 30 \<and> s = 31 then Inr 32
                else Inl ValueError),
      as_python =
        (\<lambda>r. if r = 12 then PList demo_conditions
              else if r = 32 then PList demo_bad_conditions
              else PBytes []),
      program_bytes = (\<lambda>p. if p = 101 then [160, 171, 205] else []),
      fromhex = (\<lambda>s. if s = [] then Inl ValueError else Inr 1),
      read_generator_json =
        (\<lambda>h. if h = 7 then Inr (py_str ''ff01'') else Inl FileNotFoundError)\<rparr>"

definition demo_generator :: "nat BlockGenerator" where
  "demo_generator = \<lparr>program = 1, generator_refs = []\<rparr>"

definition demo_constants :: ConsensusConstants where
  "demo_constants = \<lparr>MAX_BLOCK_COST_CLVM = 11000000000, COST_PER_BYTE = 12000\<rparr>"

definition demo_cat :: CAT where
  "demo_cat = \<lparr>tail_hash = py_str ''abcd'', memo = py_str ''hi'', npc = demo_npc_a\<rparr>"

text \<open>
  The same block with one coin, whose puzzle returns a chosen value: a condition whose
  payload starts with a list, an empty atom ahead of a condition with a memo, and a
  condition whose fourth element is the empty list.
\<close>

definition demo_env_returning :: "pyval \<Rightarrow> nat env" where
  "demo_env_returning v = (demo_env None [demo_npc_a])\<lparr>as_python := (\<lambda>r. v)\<rparr>"



definition demo_empty_payload_conditions :: "pyval list" where
  "demo_empty_payload_conditions = [PList [PBytes [51], PBytes [9], PBytes [2], PBytes []]]"


section \<open>Hexadecimal rendering\<close>

lemma sentinel_hex_replicate: "retirement_sentinel_hex = replicate 64 48"
  unfolding retirement_sentinel_hex_def py_str_def by code_simp

lemma hexdigit_eq_zero: "n < 16 \<Longrightarrow> (hexdigit n = 48) = (n = 0)"
proof (cases n)
  case 0
  then show ?thesis by (simp add: hexdigit_def py_str_def)
next
  case (Suc m)
  assume "n < 16"
  with Suc have "m < length (py_str ''123456789abcdef'')" by (simp add: py_str_def)
  then have "py_str ''123456789abcdef'' ! m \<in> set (py_str ''123456789abcdef'')"
    by (rule nth_mem)
  then have "py_str ''123456789abcdef'' ! m \<noteq> 48" by (auto simp: py_str_def)
  moreover have "hexdigit (Suc m) = py_str ''123456789abcdef'' ! m"
    by (simp add: hexdigit_def py_str_def)
  ultimately show ?thesis using Suc by simp
qed

lemma hexdigit_lowercase: "n < 16 \<Longrightarrow> hexdigit n \<in> set (py_str ''0123456789abcdef'')"
  unfolding hexdigit_def by (rule nth_mem) (simp add: py_str_def)

lemma byte_hex_eq_zero: "(byte_hex b = [48, 48]) = (b = 0)"
proof -
  have "unat b div 16 < 16"
    using unsigned_less [of b, where 'a = nat] by simp
  moreover have "unat b mod 16 < 16" by simp
  ultimately have "(byte_hex b = [48, 48]) = (unat b div 16 = 0 \<and> unat b mod 16 = 0)"
    by (simp add: byte_hex_def hexdigit_eq_zero)
  also have "\<dots> = (unat b = 0)" by auto
  also have "\<dots> = (b = 0)" by (simp add: unat_eq_0)
  finally show ?thesis .
qed

lemma bytes_hex_Nil: "bytes_hex [] = []"
  by (simp add: bytes_hex_def)

lemma bytes_hex_Cons: "bytes_hex (b # bs) = byte_hex b @ bytes_hex bs"
  by (simp add: bytes_hex_def)

lemma bytes_hex_zeros: "(bytes_hex h = replicate (2 * n) 48) = (h = replicate n 0)"
proof (induction h arbitrary: n)
  case Nil
  then show ?case by (auto simp: bytes_hex_Nil)
next
  case (Cons b bs)
  show ?case
  proof (cases n)
    case 0
    then show ?thesis by (simp add: bytes_hex_Cons byte_hex_def)
  next
    case (Suc k)
    have "(bytes_hex (b # bs) = replicate (2 * n) 48)
            = (byte_hex b = [48, 48] \<and> bytes_hex bs = replicate (2 * k) 48)"
      using Suc by (auto simp: bytes_hex_Cons byte_hex_def)
    then show ?thesis using Suc Cons.IH [of k] by (simp add: byte_hex_eq_zero)
  qed
qed

lemma sentinel_iff: "(bytes_hex h = retirement_sentinel_hex) = (h = retirement_sentinel)"
  using bytes_hex_zeros [of h 32] by (simp add: sentinel_hex_replicate retirement_sentinel_def)

lemma bytes_hex_lowercase: "set (bytes_hex bs) \<subseteq> set (py_str ''0123456789abcdef'')"
proof (induction bs)
  case Nil
  then show ?case by (simp add: bytes_hex_Nil)
next
  case (Cons b bs)
  have "unat b div 16 < 16"
    using unsigned_less [of b, where 'a = nat] by simp
  then have "set (byte_hex b) \<subseteq> set (py_str ''0123456789abcdef'')"
    by (simp add: byte_hex_def hexdigit_lowercase)
  with Cons show ?case by (simp add: bytes_hex_Cons)
qed

section \<open>The memo scan\<close>


lemma scan_condition_first:
  "qualifies cc c \<Longrightarrow>
     scan_condition cc [] c = (case payload_memo c of Inl e \<Rightarrow> Inl e | Inr s \<Rightarrow> Inr (Break s))"
  by (auto simp: qualifies_def scan_condition_def memo_payload_def payload_memo_def sentinel_iff
           split: pyval.splits list.splits sum.splits)

lemma scan_condition_Break:
  "scan_condition cc m c = Inr (Break s) \<Longrightarrow> qualifies cc c"
  by (auto simp: qualifies_def scan_condition_def memo_payload_def sentinel_iff
           split: pyval.splits list.splits sum.splits if_splits)


lemma scan_conditions_reach:
  "\<forall>c \<in> set pre. scan_condition cc m c = Inr Continue \<Longrightarrow>
     scan_conditions cc m (pre @ rest) = scan_conditions cc m rest"
  by (induction pre) auto

lemma scan_conditions_raises:
  "find (qualifies cc) conds = Some c \<Longrightarrow> payload_memo c = Inl e \<Longrightarrow>
     \<exists>e'. scan_conditions cc [] conds = Inl e'"
proof (induction conds)
  case Nil
  then show ?case by simp
next
  case (Cons d conds)
  show ?case
  proof (cases "qualifies cc d")
    case True
    with Cons.prems have "d = c" by simp
    with True Cons.prems show ?thesis by (simp add: scan_condition_first)
  next
    case False
    with Cons have IH: "\<exists>e'. scan_conditions cc [] conds = Inl e'" by simp
    show ?thesis
    proof (cases "scan_condition cc [] d")
      case (Inl e1)
      then show ?thesis by simp
    next
      case (Inr ctl)
      show ?thesis
      proof (cases ctl)
        case Continue
        with Inr IH show ?thesis by simp
      next
        case (Break s)
        with Inr have "qualifies cc d" by (auto dest: scan_condition_Break)
        with False show ?thesis by simp
      qed
    qed
  qed
qed

section \<open>Calls and exceptions\<close>

lemma io_bind_return: "io_bind (io_return x) f = f x"
  by (simp add: io_bind_def io_return_def split: prod.splits)

lemma io_bind_raise: "io_bind (io_raise e) f = ([], Inl e)"
  by (simp add: io_bind_def io_raise_def)

lemma io_bind_lift_Inr: "io_bind (io_lift (Inr x)) f = f x"
  by (simp add: io_bind_def io_lift_def split: prod.splits)

lemma io_bind_lift_Inl: "io_bind (io_lift (Inl e)) f = ([], Inl e)"
  by (simp add: io_bind_def io_lift_def)

lemma io_bind_call_Inr: "io_bind (io_call c (Inr x)) f = (c # fst (f x), snd (f x))"
  by (simp add: io_bind_def io_call_def split: prod.splits)

lemma io_bind_call_Inl: "io_bind (io_call c (Inl e)) f = ([c], Inl e)"
  by (simp add: io_bind_def io_call_def)

lemma io_bind_Inl: "m = (t, Inl e) \<Longrightarrow> io_bind m f = (t, Inl e)"
  by (simp add: io_bind_def)

lemma io_bind_Inr: "m = (t, Inr x) \<Longrightarrow> io_bind m f = (t @ fst (f x), snd (f x))"
  by (simp add: io_bind_def split: prod.splits)

lemma io_bind_pair_Inl: "io_bind (t, Inl e) f = (t, Inl e)"
  by (simp add: io_bind_def)

lemma io_bind_pair_Inr: "io_bind (t, Inr x) f = (t @ fst (f x), snd (f x))"
  by (simp add: io_bind_def split: prod.splits)

lemmas io_eval =
  io_bind_pair_Inl io_bind_pair_Inr io_call_def io_lift_def io_return_def io_raise_def

lemmas io_simps =
  io_bind_return io_bind_raise io_bind_lift_Inr io_bind_lift_Inl io_bind_call_Inr io_bind_call_Inl

lemma process_npc_matched:
  assumes "get_puzzle_and_solution_for_coin E bg (coin_name n) (MAX_BLOCK_COST_CLVM c)
             = Inr (k, puzzle, solution)"
      and "match_cat_puzzle E puzzle = (True, [a, th, b])"
      and "program_run E puzzle solution = Inr result"
  shows "process_npc E bg c cat_list n =
           ([Resolve (coin_name n), MatchCat puzzle, RunPuzzle puzzle solution],
            case extract_memo (CREATE_COIN E) (as_python E result) of
              Inl e \<Rightarrow> Inl e
            | Inr m \<Rightarrow>
                Inr (cat_list @
                  [\<lparr>tail_hash = drop 2 (bytes_hex (program_bytes E th)), memo = m, npc = n\<rparr>]))"
  using assms
  by (simp add: process_npc_def io_simps io_return_def split: sum.splits)


lemma run_generator_error:
  assumes "error (get_name_puzzle_conditions E bg (MAX_BLOCK_COST_CLVM c) (COST_PER_BYTE c) False)
             = Some code"
  shows "run_generator E bg c = ([Execute bg], Inl (ConsensusError code))"
  using assms by (simp add: run_generator_def io_simps io_raise_def)

text \<open>
  Claim C3. When the execution result carries an error code, \<open>run_generator\<close> raises
  \<open>ConsensusError\<close> with that code after the single call to the engine: no coin is
  resolved, matched or run, and no list of records is returned.
\<close>

theorem execution_error_aborts:
  assumes "error (get_name_puzzle_conditions E bg (MAX_BLOCK_COST_CLVM c) (COST_PER_BYTE c) False)
             = Some code"
  shows "run_generator E bg c = ([Execute bg], Inl (ConsensusError code))"
  using assms by (simp add: run_generator_def io_simps io_raise_def)

lemma ref_list_to_args_from_calls:
  "set (fst (ref_list_to_args_from E args refs)) \<subseteq> ReadRecord ` set refs"
proof (induction refs arbitrary: args)
  case Nil
  then show ?case by (simp add: io_return_def)
next
  case (Cons h refs)
  show ?case
  proof (cases "read_generator_json E h")
    case (Inl e)
    then show ?thesis by (simp add: io_simps)
  next
    case (Inr s)
    show ?thesis
    proof (cases "fromhex E s")
      case (Inl e)
      with Inr show ?thesis by (simp add: io_simps)
    next
      case (Inr p)
      with \<open>read_generator_json E h = Inr s\<close> Cons.IH show ?thesis
        by (auto simp: io_simps)
    qed
  qed
qed

lemma ref_list_to_args_no_execute:
  "\<not> list_ex is_execute (fst (ref_list_to_args E refs))"
  using ref_list_to_args_from_calls [of E "[]" refs]
  by (auto simp: ref_list_to_args_def list_ex_iff is_execute_def)

lemma ref_list_to_args_from_fail:
  assumes "\<forall>h \<in> set pre. \<exists>s p. read_generator_json E h = Inr s \<and> fromhex E s = Inr p"
      and "read_generator_json E h = Inl e"
  shows "ref_list_to_args_from E args (pre @ h # post) = (map ReadRecord (pre @ [h]), Inl e)"
  using assms
proof (induction pre arbitrary: args)
  case Nil
  then show ?case by (simp add: io_simps)
next
  case (Cons g pre)
  from Cons.prems obtain s p where "read_generator_json E g = Inr s" "fromhex E s = Inr p"
    by auto
  moreover from Cons have
    "ref_list_to_args_from E (args @ [\<lparr>block_height = g, generator = p\<rparr>]) (pre @ h # post)
       = (map ReadRecord (pre @ [h]), Inl e)"
    by simp
  ultimately show ?case by (simp add: io_simps)
qed

lemma ref_list_to_args_from_ok:
  "ref_list_to_args_from E args refs = (tr, Inr res) \<Longrightarrow>
     tr = map ReadRecord refs \<and> map block_height res = map block_height args @ refs"
proof (induction refs arbitrary: args tr)
  case Nil
  then show ?case by (simp add: io_return_def)
next
  case (Cons h refs)
  show ?case
  proof (cases "read_generator_json E h")
    case (Inl e)
    with Cons.prems show ?thesis by (simp add: io_simps)
  next
    case (Inr s)
    show ?thesis
    proof (cases "fromhex E s")
      case (Inl e)
      with Inr Cons.prems show ?thesis by (simp add: io_simps)
    next
      case (Inr p)
      let ?args = "args @ [\<lparr>block_height = h, generator = p\<rparr>]"
      from Inr \<open>read_generator_json E h = Inr s\<close> Cons.prems
      have "ref_list_to_args_from E ?args refs = (tl tr, Inr res)" and "tr = ReadRecord h # tl tr"
        by (auto simp: io_simps prod_eq_iff)
      with Cons.IH [of ?args "tl tr"] show ?thesis
        by (metis append.assoc append_Cons append_Nil list.simps(8,9) map_append
             GeneratorArg.select_convs(1))
    qed
  qed
qed

text \<open>
  Claim C4. On a block whose \<open>transactions_generator\<close> is \<open>None\<close>, \<open>run_full_block\<close>
  raises without executing anything, and raises \<open>RuntimeError\<close> once the reference list
  has been loaded; \<open>run_generator_with_args\<close> on an empty generator string (or \<open>None\<close>)
  returns the empty list and calls nothing.
\<close>

theorem absent_generator_asymmetry:
  assumes "transactions_generator block = None"
  shows "(\<exists>tr e. run_full_block E block c = (tr, Inl e) \<and> \<not> list_ex is_execute tr)
       \<and> (\<forall>tr args. ref_list_to_args E (transactions_generator_ref_list block) = (tr, Inr args)
            \<longrightarrow> run_full_block E block c = (tr, Inl RuntimeError))
       \<and> run_generator_with_args E (Some []) generator_args c = ([], Inr [])
       \<and> run_generator_with_args E None generator_args c = ([], Inr [])"
proof -
  let ?m = "ref_list_to_args E (transactions_generator_ref_list block)"
  have noex: "\<not> list_ex is_execute (fst ?m)" by (rule ref_list_to_args_no_execute)
  have ok: "run_full_block E block c = (tr, Inl RuntimeError)" if "?m = (tr, Inr args)" for tr args
    using that assms by (simp add: run_full_block_def io_bind_Inr io_raise_def)
  have "\<exists>tr e. run_full_block E block c = (tr, Inl e) \<and> \<not> list_ex is_execute tr"
  proof (cases "snd ?m")
    case (Inl e)
    then have "?m = (fst ?m, Inl e)" by (simp add: prod_eq_iff)
    then have "run_full_block E block c = (fst ?m, Inl e)"
      unfolding run_full_block_def by (rule io_bind_Inl)
    with noex show ?thesis by blast
  next
    case (Inr args)
    then have "?m = (fst ?m, Inr args)" by (simp add: prod_eq_iff)
    with ok noex show ?thesis by blast
  qed
  moreover have "run_generator_with_args E (Some []) generator_args c = ([], Inr [])"
    and "run_generator_with_args E None generator_args c = ([], Inr [])"
    by (simp_all add: run_generator_with_args_def io_return_def)
  ultimately show ?thesis using ok by blast
qed

text \<open>
  Claim C9. Both \<open>run_full_block\<close> and \<open>run_json_block_file\<close> load the referenced
  programs first, one record read per height; when the record of a height cannot be
  read, the run ends there with that failure, whatever \<open>transactions_generator\<close> holds,
  absent or empty included.
\<close>

theorem reference_load_precedes_generator_check:
  assumes "\<forall>g \<in> set pre. \<exists>s p. read_generator_json E g = Inr s \<and> fromhex E s = Inr p"
      and "read_generator_json E h = Inl e"
  shows "(transactions_generator_ref_list block = pre @ h # post
            \<longrightarrow> run_full_block E block c = (map ReadRecord (pre @ [h]), Inl e))
       \<and> (json_transactions_generator_ref_list full_block = pre @ h # post
            \<longrightarrow> run_json_block_file E full_block c = (map ReadRecord (pre @ [h]), Inl e))
       \<and> (\<forall>refs tr args. ref_list_to_args E refs = (tr, Inr args)
            \<longrightarrow> tr = map ReadRecord refs \<and> map block_height args = refs)"
proof -
  have fail: "ref_list_to_args E (pre @ h # post) = (map ReadRecord (pre @ [h]), Inl e)"
    unfolding ref_list_to_args_def using assms by (rule ref_list_to_args_from_fail)
  have "run_full_block E block c = (map ReadRecord (pre @ [h]), Inl e)"
    if "transactions_generator_ref_list block = pre @ h # post"
    unfolding run_full_block_def using fail that by (simp add: io_bind_Inl)
  moreover have "run_json_block_file E full_block c = (map ReadRecord (pre @ [h]), Inl e)"
    if "json_transactions_generator_ref_list full_block = pre @ h # post"
    unfolding run_json_block_file_def using fail that by (simp add: io_bind_Inl)
  moreover have "tr = map ReadRecord refs \<and> map block_height args = refs"
    if "ref_list_to_args E refs = (tr, Inr args)" for refs tr args
    using ref_list_to_args_from_ok [of E "[]" refs tr args] that
    by (simp add: ref_list_to_args_def)
  ultimately show ?thesis by blast
qed

lemma clvm_value_nth:
  "clvm_value (PList xs) \<Longrightarrow> i < length xs \<Longrightarrow> clvm_value (xs ! i)"
  by (simp add: list_all_length)

text \<open>
  Claim C10, as amended. On a list condition that \<open>as_python()\<close> can build, the scan
  never indexes out of range: a list in fourth place is not empty. The empty list in
  fourth place arrives as \<open>b''\<close>, which is not of type list, so the condition is passed
  over and does not qualify.
\<close>

theorem empty_payload_is_passed_over:
  assumes "clvm_value (PList xs)"
  shows "scan_condition cc m (PList xs) \<noteq> Inl IndexError
       \<and> (4 \<le> length xs \<longrightarrow> xs ! 3 = PBytes [] \<longrightarrow>
            scan_condition cc m (PList xs) = Inr Continue
          \<and> \<not> qualifies cc (PList xs))"
proof (intro conjI impI)
  from assms have ne: "xs \<noteq> []" by simp
  then obtain x0 rest where xs: "xs = x0 # rest" by (cases xs) auto
  show "scan_condition cc m (PList xs) \<noteq> Inl IndexError"
  proof (cases "x0 = PBytes cc \<and> 4 \<le> length xs")
    case False
    with xs show ?thesis by (auto simp: scan_condition_def)
  next
    case True
    then have "3 < length xs" by simp
    with assms have v3: "clvm_value (xs ! 3)" by (rule clvm_value_nth)
    show ?thesis
    proof (cases "xs ! 3")
      case (PBytes bs)
      with True xs show ?thesis by (auto simp: scan_condition_def)
    next
      case (PTuple u v)
      with True xs show ?thesis by (auto simp: scan_condition_def)
    next
      case (PList ys)
      with v3 have "ys \<noteq> []" by simp
      then obtain y0 ys' where ys: "ys = y0 # ys'" by (cases ys) auto
      have "memo_payload m (y0 # ys') \<noteq> Inl IndexError"
        by (auto simp: memo_payload_def decode_utf8_def split: pyval.splits option.splits)
      with True xs PList ys show ?thesis by (auto simp: scan_condition_def)
    qed
  qed
next
  assume "4 \<le> length xs" and "xs ! 3 = PBytes []"
  then show "scan_condition cc m (PList xs) = Inr Continue"
    by (cases xs) (auto simp: scan_condition_def)
next
  assume "4 \<le> length xs" and "xs ! 3 = PBytes []"
  then show "\<not> qualifies cc (PList xs)"
    by (simp add: qualifies_def)
qed

lemma process_npc_resolve_fail:
  assumes "get_puzzle_and_solution_for_coin E bg (coin_name n) (MAX_BLOCK_COST_CLVM c) = Inl e"
  shows "process_npc E bg c cat_list n = ([Resolve (coin_name n)], Inl e)"
  using assms by (simp add: process_npc_def io_simps)

lemma process_npc_unmatched:
  assumes "get_puzzle_and_solution_for_coin E bg (coin_name n) (MAX_BLOCK_COST_CLVM c)
             = Inr (k, puzzle, solution)"
      and "\<not> fst (match_cat_puzzle E puzzle)"
  shows "process_npc E bg c cat_list n = ([Resolve (coin_name n), MatchCat puzzle], Inr cat_list)"
proof -
  obtain args where "match_cat_puzzle E puzzle = (False, args)"
    using assms(2) by (cases "match_cat_puzzle E puzzle") auto
  with assms(1) show ?thesis
    by (simp add: process_npc_def io_simps io_return_def)
qed

lemma process_npc_bad_arity:
  assumes "get_puzzle_and_solution_for_coin E bg (coin_name n) (MAX_BLOCK_COST_CLVM c)
             = Inr (k, puzzle, solution)"
      and "fst (match_cat_puzzle E puzzle)"
      and "length (snd (match_cat_puzzle E puzzle)) \<noteq> 3"
  shows "process_npc E bg c cat_list n = ([Resolve (coin_name n), MatchCat puzzle], Inl ValueError)"
proof -
  obtain args where m: "match_cat_puzzle E puzzle = (True, args)"
    using assms(2) by (cases "match_cat_puzzle E puzzle") auto
  with assms(3) have "length args \<noteq> 3" by simp
  then have "(case args of [x, tail, y] \<Rightarrow> f tail | _ \<Rightarrow> io_raise ValueError)
               = io_raise ValueError" for f :: "'a \<Rightarrow> ('a, CAT list) io"
    by (auto split: list.splits)
  with assms(1) m show ?thesis
    by (simp add: process_npc_def io_simps io_raise_def)
qed

lemma process_npc_run_fail:
  assumes "get_puzzle_and_solution_for_coin E bg (coin_name n) (MAX_BLOCK_COST_CLVM c)
             = Inr (k, puzzle, solution)"
      and "match_cat_puzzle E puzzle = (True, [a, th, b])"
      and "program_run E puzzle solution = Inl e"
  shows "process_npc E bg c cat_list n =
           ([Resolve (coin_name n), MatchCat puzzle, RunPuzzle puzzle solution], Inl e)"
  using assms by (simp add: process_npc_def io_simps)

lemma length_3_cases: "length xs = 3 \<Longrightarrow> \<exists>a th b. xs = [a, th, b]"
  by (cases xs; cases "tl xs"; cases "tl (tl xs)") auto

text \<open>The shapes a pass of the loop body can take.\<close>

lemma process_npc_cases:
  obtains
    (resolve_fail) e where
      "get_puzzle_and_solution_for_coin E bg (coin_name n) (MAX_BLOCK_COST_CLVM c) = Inl e"
      "process_npc E bg c cat_list n = ([Resolve (coin_name n)], Inl e)"
  | (unmatched) k puzzle solution where
      "get_puzzle_and_solution_for_coin E bg (coin_name n) (MAX_BLOCK_COST_CLVM c)
         = Inr (k, puzzle, solution)"
      "\<not> fst (match_cat_puzzle E puzzle)"
      "process_npc E bg c cat_list n = ([Resolve (coin_name n), MatchCat puzzle], Inr cat_list)"
  | (bad_arity) k puzzle solution where
      "get_puzzle_and_solution_for_coin E bg (coin_name n) (MAX_BLOCK_COST_CLVM c)
         = Inr (k, puzzle, solution)"
      "fst (match_cat_puzzle E puzzle)"
      "process_npc E bg c cat_list n = ([Resolve (coin_name n), MatchCat puzzle], Inl ValueError)"
  | (run_fail) k puzzle solution e where
      "get_puzzle_and_solution_for_coin E bg (coin_name n) (MAX_BLOCK_COST_CLVM c)
         = Inr (k, puzzle, solution)"
      "fst (match_cat_puzzle E puzzle)"
      "process_npc E bg c cat_list n =
         ([Resolve (coin_name n), MatchCat puzzle, RunPuzzle puzzle solution], Inl e)"
  | (appended) k puzzle solution x where
      "get_puzzle_and_solution_for_coin E bg (coin_name n) (MAX_BLOCK_COST_CLVM c)
         = Inr (k, puzzle, solution)"
      "fst (match_cat_puzzle E puzzle)"
      "npc x = n" "cat_of E bg c x"
      "process_npc E bg c cat_list n =
         ([Resolve (coin_name n), MatchCat puzzle, RunPuzzle puzzle solution],
          Inr (cat_list @ [x]))"
proof (cases "get_puzzle_and_solution_for_coin E bg (coin_name n) (MAX_BLOCK_COST_CLVM c)")
  case (Inl e)
  with resolve_fail process_npc_resolve_fail [OF Inl] show ?thesis by blast
next
  case (Inr t)
  obtain k puzzle solution where t: "t = (k, puzzle, solution)" by (cases t) auto
  note res = Inr [unfolded t]
  show ?thesis
  proof (cases "fst (match_cat_puzzle E puzzle)")
    case False
    with unmatched res process_npc_unmatched [OF res] show ?thesis by blast
  next
    case True
    show ?thesis
    proof (cases "length (snd (match_cat_puzzle E puzzle)) = 3")
      case False
      with bad_arity res True process_npc_bad_arity [OF res True] show ?thesis by blast
    next
      case len: True
      then obtain a th b where "snd (match_cat_puzzle E puzzle) = [a, th, b]"
        using length_3_cases by blast
      with True have m: "match_cat_puzzle E puzzle = (True, [a, th, b])"
        by (simp add: prod_eq_iff)
      show ?thesis
      proof (cases "program_run E puzzle solution")
        case (Inl e)
        with run_fail res True process_npc_run_fail [OF res m Inl] show ?thesis by blast
      next
        case (Inr result)
        note run = this
        show ?thesis
        proof (cases "extract_memo (CREATE_COIN E) (as_python E result)")
          case (Inl e)
          with process_npc_matched [OF res m run, of cat_list] run_fail res True
          show ?thesis by simp
        next
          case (Inr s)
          let ?x = "\<lparr>tail_hash = drop 2 (bytes_hex (program_bytes E th)), memo = s, npc = n\<rparr>"
          have "cat_of E bg c ?x"
            unfolding cat_of_def using res m run Inr by auto
          moreover have "npc ?x = n" by simp
          moreover have "process_npc E bg c cat_list n =
             ([Resolve (coin_name n), MatchCat puzzle, RunPuzzle puzzle solution],
              Inr (cat_list @ [?x]))"
            using process_npc_matched [OF res m run, of cat_list] Inr by simp
          ultimately show ?thesis using appended res True by blast
        qed
      qed
    qed
  qed
qed

lemma process_npc_summary:
  assumes "process_npc E bg c cat_list n = (tr, r)"
  shows "filter is_resolve tr = [Resolve (coin_name n)]"
    and "\<forall>p s. RunPuzzle p s \<in> set tr \<longrightarrow> fst (match_cat_puzzle E p)"
    and "\<forall>cats. r = Inr cats \<longrightarrow>
           (\<exists>new. cats = cat_list @ new
              \<and> map npc new = filter (puzzle_matches E bg c) [n]
              \<and> (\<forall>x \<in> set new. cat_of E bg c x))"
    and "\<forall>e. get_puzzle_and_solution_for_coin E bg (coin_name n) (MAX_BLOCK_COST_CLVM c) = Inl e
           \<longrightarrow> r = Inl e"
  using assms
  by (cases rule: process_npc_cases [of E bg n c cat_list];
      auto simp: is_resolve_def puzzle_matches_def)+

section \<open>The loop over the coins\<close>

lemma io_bind_cases:
  assumes "io_bind m f = (tr, r)"
  obtains (raised) e where "m = (tr, Inl e)" "r = Inl e"
        | (returned) t1 x t2 where "m = (t1, Inr x)" "f x = (t2, r)" "tr = t1 @ t2"
  using assms
  by (cases m; cases "snd m") (auto simp: io_bind_def split: prod.splits)

lemma for_npcs_runs_matched_only:
  "for_npcs E bg c cat_list npcs = (tr, r) \<Longrightarrow>
     \<forall>p s. RunPuzzle p s \<in> set tr \<longrightarrow> fst (match_cat_puzzle E p)"
proof (induction npcs arbitrary: cat_list tr r)
  case Nil
  then show ?case by (simp add: io_return_def)
next
  case (Cons n npcs)
  from Cons.prems have
    "io_bind (process_npc E bg c cat_list n) (\<lambda>cl. for_npcs E bg c cl npcs) = (tr, r)"
    by simp
  then show ?case
  proof (cases rule: io_bind_cases)
    case (raised e)
    then show ?thesis using process_npc_summary(2) by blast
  next
    case (returned t1 x t2)
    from returned(1) have "\<forall>p s. RunPuzzle p s \<in> set t1 \<longrightarrow> fst (match_cat_puzzle E p)"
      by (rule process_npc_summary(2))
    moreover from returned(2) have "\<forall>p s. RunPuzzle p s \<in> set t2 \<longrightarrow> fst (match_cat_puzzle E p)"
      by (rule Cons.IH)
    ultimately show ?thesis using returned(3) by auto
  qed
qed

lemma for_npcs_returns:
  "for_npcs E bg c cat_list npcs = (tr, Inr cats) \<Longrightarrow>
     \<exists>new. cats = cat_list @ new
       \<and> map npc new = filter (puzzle_matches E bg c) npcs
       \<and> (\<forall>x \<in> set new. cat_of E bg c x)
       \<and> filter is_resolve tr = map (\<lambda>n. Resolve (coin_name n)) npcs"
proof (induction npcs arbitrary: cat_list tr)
  case Nil
  then show ?case by (simp add: io_return_def)
next
  case (Cons n npcs)
  from Cons.prems have
    "io_bind (process_npc E bg c cat_list n) (\<lambda>cl. for_npcs E bg c cl npcs) = (tr, Inr cats)"
    by simp
  then show ?case
  proof (cases rule: io_bind_cases)
    case (raised e)
    then show ?thesis by simp
  next
    case (returned t1 x t2)
    from process_npc_summary(3) [OF returned(1)] obtain new1 where
      n1: "x = cat_list @ new1" "map npc new1 = filter (puzzle_matches E bg c) [n]"
          "\<forall>y \<in> set new1. cat_of E bg c y"
      by blast
    from Cons.IH [OF returned(2)] obtain new2 where
      n2: "cats = x @ new2" "map npc new2 = filter (puzzle_matches E bg c) npcs"
          "\<forall>y \<in> set new2. cat_of E bg c y"
          "filter is_resolve t2 = map (\<lambda>n. Resolve (coin_name n)) npcs"
      by blast
    have "filter is_resolve t1 = [Resolve (coin_name n)]"
      using returned(1) by (rule process_npc_summary(1))
    with n1 n2 returned(3) have
      "cats = cat_list @ (new1 @ new2)
       \<and> map npc (new1 @ new2) = filter (puzzle_matches E bg c) (n # npcs)
       \<and> (\<forall>y \<in> set (new1 @ new2). cat_of E bg c y)
       \<and> filter is_resolve tr = map (\<lambda>n. Resolve (coin_name n)) (n # npcs)"
      by auto
    then show ?thesis by blast
  qed
qed

lemma for_npcs_raises:
  assumes "n \<in> set npcs"
      and "\<And>cat_list. \<exists>t e. process_npc E bg c cat_list n = (t, Inl e)"
  shows "\<exists>tr e. for_npcs E bg c cat_list npcs = (tr, Inl e)"
  using assms(1)
proof (induction npcs arbitrary: cat_list)
  case Nil
  then show ?case by simp
next
  case (Cons k npcs)
  obtain t1 r1 where p: "process_npc E bg c cat_list k = (t1, r1)"
    by (cases "process_npc E bg c cat_list k") auto
  show ?case
  proof (cases r1)
    case (Inl e)
    with p show ?thesis by (simp add: io_bind_Inl)
  next
    case (Inr cl)
    with p assms(2) [of cat_list] have "k \<noteq> n" by auto
    with Cons.prems have "n \<in> set npcs" by simp
    then obtain tr e where "for_npcs E bg c cl npcs = (tr, Inl e)"
      using Cons.IH by blast
    with p Inr show ?thesis by (simp add: io_bind_Inr)
  qed
qed

section \<open>The whole run\<close>

lemma run_generator_ok:
  assumes "error (get_name_puzzle_conditions E bg (MAX_BLOCK_COST_CLVM c) (COST_PER_BYTE c) False)
             = None"
  shows "run_generator E bg c =
           (Execute bg #
              fst (for_npcs E bg c []
                (npc_list (get_name_puzzle_conditions E bg (MAX_BLOCK_COST_CLVM c)
                   (COST_PER_BYTE c) False))),
            snd (for_npcs E bg c []
                (npc_list (get_name_puzzle_conditions E bg (MAX_BLOCK_COST_CLVM c)
                   (COST_PER_BYTE c) False))))"
  using assms by (simp add: run_generator_def io_simps)

lemma run_generator_returns:
  assumes "run_generator E bg c = (tr, Inr cats)"
  obtains t where "tr = Execute bg # t"
    and "for_npcs E bg c []
           (npc_list (get_name_puzzle_conditions E bg (MAX_BLOCK_COST_CLVM c)
              (COST_PER_BYTE c) False)) = (t, Inr cats)"
proof -
  let ?res = "get_name_puzzle_conditions E bg (MAX_BLOCK_COST_CLVM c) (COST_PER_BYTE c) False"
  let ?F = "for_npcs E bg c [] (npc_list ?res)"
  have none: "error ?res = None"
  proof (cases "error ?res")
    case None
    then show ?thesis .
  next
    case (Some code)
    with assms run_generator_error [of E bg c code] show ?thesis by simp
  qed
  from run_generator_ok [OF none] assms
  have "tr = Execute bg # fst ?F" and "snd ?F = Inr cats" by simp_all
  moreover from this(2) have "?F = (fst ?F, Inr cats)" by (simp add: prod_eq_iff)
  ultimately show ?thesis using that by blast
qed

lemma run_generator_any:
  assumes "run_generator E bg c = (tr, r)"
  obtains (failed) code where "tr = [Execute bg]" "r = Inl (ConsensusError code)"
    "error (get_name_puzzle_conditions E bg (MAX_BLOCK_COST_CLVM c) (COST_PER_BYTE c) False)
       = Some code"
  | (looped) t where "tr = Execute bg # t"
    "for_npcs E bg c []
       (npc_list (get_name_puzzle_conditions E bg (MAX_BLOCK_COST_CLVM c)
          (COST_PER_BYTE c) False)) = (t, r)"
proof -
  let ?res = "get_name_puzzle_conditions E bg (MAX_BLOCK_COST_CLVM c) (COST_PER_BYTE c) False"
  let ?F = "for_npcs E bg c [] (npc_list ?res)"
  show ?thesis
  proof (cases "error ?res")
    case None
    from run_generator_ok [OF None] assms
    have "tr = Execute bg # fst ?F" and "snd ?F = r" by simp_all
    moreover from this(2) have "?F = (fst ?F, r)" by (simp add: prod_eq_iff)
    ultimately show ?thesis using looped by blast
  next
    case (Some code)
    from assms run_generator_error [OF Some]
    have "tr = [Execute bg]" and "r = Inl (ConsensusError code)" by simp_all
    then show ?thesis using Some by (rule failed)
  qed
qed

lemmas demo_defs =
  demo_env_def demo_npc_a_def demo_npc_b_def demo_npc_c_def demo_npc_d_def
  demo_generator_def demo_constants_def

lemma demo_tail_hex: "drop 2 (bytes_hex [160, 171, 205]) = py_str ''abcd''"
  by (simp add: bytes_hex_def byte_hex_def hexdigit_def py_str_def)


lemma demo_extract_memo: "extract_memo [51] (PList demo_conditions) = Inr (py_str ''hi'')"
  by (simp add: extract_memo_def demo_conditions_def scan_condition_def memo_payload_def
       sentinel_iff decode_utf8_def py_str_def)

lemma demo_bad_memo: "extract_memo [51] (PList demo_bad_conditions) = Inl UnicodeDecodeError"
  by (simp add: extract_memo_def demo_bad_conditions_def scan_condition_def memo_payload_def
       sentinel_iff decode_utf8_def)

lemma demo_run:
  "run_generator (demo_env None [demo_npc_b, demo_npc_a]) demo_generator demo_constants
     = ([Execute demo_generator, Resolve [2], MatchCat 20, Resolve [1], MatchCat 10,
         RunPuzzle 10 11],
        Inr [demo_cat])"
  by (simp add: run_generator_def process_npc_def io_eval demo_defs demo_extract_memo
       demo_tail_hex demo_cat_def)

lemma demo_returning_run:
  "run_generator (demo_env_returning v) demo_generator demo_constants
     = ([Execute demo_generator, Resolve [1], MatchCat 10, RunPuzzle 10 11],
        case extract_memo [51] v of
          Inl e \<Rightarrow> Inl e
        | Inr m \<Rightarrow> Inr [\<lparr>tail_hash = py_str ''abcd'', memo = m, npc = demo_npc_a\<rparr>])"
  by (cases "extract_memo [51] v")
     (simp_all add: run_generator_def process_npc_def io_eval demo_defs demo_env_returning_def
       demo_tail_hex)

lemma drop_2_bytes_hex: "drop 2 (bytes_hex bs) = bytes_hex (tl bs)"
  by (cases bs) (simp_all add: bytes_hex_Nil bytes_hex_Cons byte_hex_def)

text \<open>
  Claim C2. Every record of the output has as \<open>tail_hash\<close> the lowercase hex rendering of
  the bytes of the tail-hash program curried into the coin's puzzle, with the first two
  hex characters dropped (which is the rendering of those bytes without the first).
\<close>

theorem tail_hash_rendering:
  assumes "run_generator E bg c = (tr, Inr cats)"
      and "x \<in> set cats"
  shows "\<exists>k puzzle solution a th b.
           get_puzzle_and_solution_for_coin E bg (coin_name (npc x)) (MAX_BLOCK_COST_CLVM c)
             = Inr (k, puzzle, solution)
         \<and> match_cat_puzzle E puzzle = (True, [a, th, b])
         \<and> tail_hash x = drop 2 (bytes_hex (program_bytes E th))
         \<and> tail_hash x = bytes_hex (tl (program_bytes E th))
         \<and> set (tail_hash x) \<subseteq> set (py_str ''0123456789abcdef'')"
proof -
  from assms(1) obtain t where
    "for_npcs E bg c []
       (npc_list (get_name_puzzle_conditions E bg (MAX_BLOCK_COST_CLVM c)
          (COST_PER_BYTE c) False)) = (t, Inr cats)"
    by (rule run_generator_returns)
  from for_npcs_returns [OF this] obtain new where
    "cats = [] @ new" "\<forall>y \<in> set new. cat_of E bg c y"
    by blast
  with assms(2) have "cat_of E bg c x" by simp
  then obtain k puzzle solution a th b where
    r: "get_puzzle_and_solution_for_coin E bg (coin_name (npc x)) (MAX_BLOCK_COST_CLVM c)
       = Inr (k, puzzle, solution)"
    and m: "match_cat_puzzle E puzzle = (True, [a, th, b])"
    and h: "tail_hash x = drop 2 (bytes_hex (program_bytes E th))"
    unfolding cat_of_def by blast
  from h have h2: "tail_hash x = bytes_hex (tl (program_bytes E th))"
    by (simp add: drop_2_bytes_hex)
  then have "set (tail_hash x) \<subseteq> set (py_str ''0123456789abcdef'')"
    using bytes_hex_lowercase [of "tl (program_bytes E th)"] by simp
  with r m h h2 show ?thesis by blast
qed

text \<open>
  Claim C5. The coins of the records returned are exactly the coins of the execution result
  whose puzzle matches the CAT template, in the same order, one record each; and a
  puzzle is only ever run when it matches.
\<close>

theorem cat_records_follow_matching_coins:
  assumes "run_generator E bg c = (tr, r)"
  shows "(\<forall>cats. r = Inr cats \<longrightarrow>
            map npc cats =
              filter (puzzle_matches E bg c)
                (npc_list (get_name_puzzle_conditions E bg (MAX_BLOCK_COST_CLVM c)
                   (COST_PER_BYTE c) False)))
       \<and> (\<forall>p s. RunPuzzle p s \<in> set tr \<longrightarrow> fst (match_cat_puzzle E p))"
  using assms
proof (cases rule: run_generator_any)
  case (failed code)
  then show ?thesis by simp
next
  case (looped t)
  have "map npc cats = filter (puzzle_matches E bg c)
          (npc_list (get_name_puzzle_conditions E bg (MAX_BLOCK_COST_CLVM c)
             (COST_PER_BYTE c) False))"
    if "r = Inr cats" for cats
  proof -
    from looped(2) that for_npcs_returns [of E bg c "[]" _ t cats] obtain new where
      "cats = [] @ new"
      "map npc new = filter (puzzle_matches E bg c)
          (npc_list (get_name_puzzle_conditions E bg (MAX_BLOCK_COST_CLVM c)
             (COST_PER_BYTE c) False))"
      by blast
    then show ?thesis by simp
  qed
  moreover have "\<forall>p s. RunPuzzle p s \<in> set t \<longrightarrow> fst (match_cat_puzzle E p)"
    using looped(2) by (rule for_npcs_runs_matched_only)
  ultimately show ?thesis using looped(1) by simp
qed

text \<open>
  Claim C8. A run that returns has resolved the puzzle of every coin of the execution
  result, in order; and when the resolution of any coin of the result fails, matching
  or not, the run raises.
\<close>

theorem every_coin_is_resolved:
  assumes "run_generator E bg c = (tr, r)"
  shows "(\<forall>cats. r = Inr cats \<longrightarrow>
            filter is_resolve tr =
              map (\<lambda>n. Resolve (coin_name n))
                (npc_list (get_name_puzzle_conditions E bg (MAX_BLOCK_COST_CLVM c)
                   (COST_PER_BYTE c) False)))
       \<and> (\<forall>n \<in> set (npc_list (get_name_puzzle_conditions E bg (MAX_BLOCK_COST_CLVM c)
                   (COST_PER_BYTE c) False)).
            \<forall>e. get_puzzle_and_solution_for_coin E bg (coin_name n) (MAX_BLOCK_COST_CLVM c) = Inl e
              \<longrightarrow> (\<exists>e'. r = Inl e'))"
  using assms
proof (cases rule: run_generator_any)
  case (failed code)
  then show ?thesis by simp
next
  case (looped t)
  let ?npcs = "npc_list (get_name_puzzle_conditions E bg (MAX_BLOCK_COST_CLVM c)
                 (COST_PER_BYTE c) False)"
  have "filter is_resolve tr = map (\<lambda>n. Resolve (coin_name n)) ?npcs"
    if "r = Inr cats" for cats
  proof -
    from looped(2) that for_npcs_returns [of E bg c "[]" ?npcs t cats]
    have "filter is_resolve t = map (\<lambda>n. Resolve (coin_name n)) ?npcs"
      by blast
    with looped(1) show ?thesis by (simp add: is_resolve_def)
  qed
  moreover have "\<exists>e'. r = Inl e'"
    if "n \<in> set ?npcs"
      and "get_puzzle_and_solution_for_coin E bg (coin_name n) (MAX_BLOCK_COST_CLVM c) = Inl e"
    for n e
  proof -
    have "\<exists>t e. process_npc E bg c cat_list n = (t, Inl e)" for cat_list
      using process_npc_resolve_fail [OF that(2)] by blast
    with that(1) obtain t' e' where "for_npcs E bg c [] ?npcs = (t', Inl e')"
      using for_npcs_raises [of n ?npcs E bg c "[]"] by blast
    with looped(2) show ?thesis by auto
  qed
  ultimately show ?thesis by blast
qed

text \<open>
  Claim C6. (as amended) When the payload of the first qualifying condition of some coin
  has a second element that is not valid UTF-8, the whole run raises: no list of records
  is returned, not for the other coins either.
\<close>

theorem invalid_memo_aborts_run:
  assumes "n \<in> set (npc_list (get_name_puzzle_conditions E bg (MAX_BLOCK_COST_CLVM c)
                   (COST_PER_BYTE c) False))"
      and "get_puzzle_and_solution_for_coin E bg (coin_name n) (MAX_BLOCK_COST_CLVM c)
             = Inr (k, puzzle, solution)"
      and "match_cat_puzzle E puzzle = (True, [a, th, b])"
      and "program_run E puzzle solution = Inr result"
      and "as_python E result = PList conds"
      and "find (qualifies (CREATE_COIN E)) conds = Some (PList xs)"
      and "xs ! 3 = PList ys"
      and "2 \<le> length ys"
      and "ys ! 1 = PBytes m"
      and "decode_utf8 m = Inl UnicodeDecodeError"
  shows "\<exists>tr e. run_generator E bg c = (tr, Inl e)"
proof -
  let ?res = "get_name_puzzle_conditions E bg (MAX_BLOCK_COST_CLVM c) (COST_PER_BYTE c) False"
  have "payload_memo (PList xs) = Inl UnicodeDecodeError"
    using assms(7-10) by (simp add: payload_memo_def)
  with assms(6) obtain e1 where "scan_conditions (CREATE_COIN E) [] conds = Inl e1"
    using scan_conditions_raises by blast
  with assms(5) have "extract_memo (CREATE_COIN E) (as_python E result) = Inl e1"
    by (simp add: extract_memo_def)
  with process_npc_matched [OF assms(2-4)]
  have coin: "\<exists>t e. process_npc E bg c cat_list n = (t, Inl e)" for cat_list
    by simp
  show ?thesis
  proof (cases "error ?res")
    case None
    from for_npcs_raises [of n "npc_list ?res" E bg c "[]"] assms(1) coin
    obtain t e where "for_npcs E bg c [] (npc_list ?res) = (t, Inl e)" by blast
    with run_generator_ok [OF None] show ?thesis by simp
  next
    case (Some code)
    with run_generator_error [of E bg c code] show ?thesis by simp
  qed
qed

section \<open>Grouping and serialisation\<close>

lemma add_condition_grouped:
  "\<forall>g \<in> set groups. \<forall>x \<in> set (snd g). opcode x = fst g \<Longrightarrow>
     \<forall>g \<in> set (add_condition cwa groups). \<forall>x \<in> set (snd g). opcode x = fst g"
proof (induction groups)
  case Nil
  show ?case by simp
next
  case (Cons kg groups)
  obtain k g where kg: "kg = (k, g)" by (cases kg)
  from Cons.prems kg have hd: "\<forall>x \<in> set g. opcode x = k" by simp
  from Cons.prems have tl: "\<forall>g \<in> set groups. \<forall>x \<in> set (snd g). opcode x = fst g" by simp
  from Cons.IH [OF tl] have IH:
    "\<forall>g \<in> set (add_condition cwa groups). \<forall>x \<in> set (snd g). opcode x = fst g" .
  show ?case
  proof (cases "k = opcode cwa")
    case True
    with hd tl kg show ?thesis by simp
  next
    case False
    with hd IH kg show ?thesis by simp
  qed
qed

lemma foldl_add_condition_grouped:
  "\<forall>g \<in> set groups. \<forall>x \<in> set (snd g). opcode x = fst g \<Longrightarrow>
     \<forall>g \<in> set (foldl (\<lambda>groups cwa. add_condition cwa groups) groups cwas).
        \<forall>x \<in> set (snd g). opcode x = fst g"
proof (induction cwas arbitrary: groups)
  case Nil
  then show ?case by simp
next
  case (Cons cwa cwas)
  from Cons.prems have
    "\<forall>g \<in> set (add_condition cwa groups). \<forall>x \<in> set (snd g). opcode x = fst g"
    by (rule add_condition_grouped)
  from Cons.IH [OF this] show ?case by simp
qed

lemma assemble_npc_grouped:
  "\<forall>g \<in> set (conditions (assemble_npc name ph raw)). \<forall>x \<in> set (snd g). opcode x = fst g"
proof -
  have "\<forall>g \<in> set ([] :: (bytes \<times> ConditionWithArgs list) list).
          \<forall>x \<in> set (snd g). opcode x = fst g"
    by simp
  from foldl_add_condition_grouped [OF this, of "map normalize_condition raw"]
  show ?thesis by (simp add: assemble_npc_def group_conditions_def)
qed

lemma collect_total:
  "\<forall>x \<in> set xs. \<exists>y. f x = Inr y \<Longrightarrow> \<exists>ys. collect f xs = Inr ys"
proof (induction xs)
  case Nil
  then show ?case by simp
next
  case (Cons x xs)
  from Cons.prems obtain y where y: "f x = Inr y" by auto
  from Cons.prems have "\<forall>x \<in> set xs. \<exists>y. f x = Inr y" by simp
  from Cons.IH [OF this] obtain ys where "collect f xs = Inr ys" by blast
  with y show ?case by simp
qed

lemma condition_list_to_dict_ok:
  assumes "\<forall>x \<in> set (snd g). opcode x = fst g"
  shows "condition_list_to_dict E g = Inr (JList (map (condition_with_args_to_dict E) (snd g)))"
proof -
  from assms have "list_all (\<lambda>cwa. fst g = opcode cwa) (snd g)"
    unfolding list_all_iff by (intro ballI) simp
  then show ?thesis by (simp only: condition_list_to_dict_def if_True)
qed

lemma condition_list_to_dict_assert:
  "(condition_list_to_dict E g = Inl AssertionError) = (\<not> (\<forall>x \<in> set (snd g). opcode x = fst g))"
proof (cases "\<forall>x \<in> set (snd g). opcode x = fst g")
  case True
  from condition_list_to_dict_ok [OF True, of E] True show ?thesis by simp
next
  case False
  then have "\<not> list_all (\<lambda>cwa. fst g = opcode cwa) (snd g)"
    unfolding list_all_iff by metis
  then have "condition_list_to_dict E g = Inl AssertionError"
    by (simp only: condition_list_to_dict_def if_False)
  with False show ?thesis by simp
qed

lemma npc_to_dict_ok:
  assumes "\<forall>g \<in> set (conditions n). \<forall>x \<in> set (snd g). opcode x = fst g"
  shows "\<exists>j. npc_to_dict E n = Inr j"
proof -
  let ?f = "\<lambda>c. case condition_list_to_dict E c of
                   Inl e \<Rightarrow> Inl e
                 | Inr d \<Rightarrow>
                     Inr (JDict [(py_str ''condition_type'', JStr (opcode_name E (fst c))),
                                 (py_str ''conditions'', d)])"
  have "\<forall>g \<in> set (conditions n). \<exists>y. ?f g = Inr y"
  proof
    fix g
    assume "g \<in> set (conditions n)"
    with assms have "\<forall>x \<in> set (snd g). opcode x = fst g" by (rule bspec)
    then have "condition_list_to_dict E g
                 = Inr (JList (map (condition_with_args_to_dict E) (snd g)))"
      by (rule condition_list_to_dict_ok)
    then show "\<exists>y. ?f g = Inr y" by simp
  qed
  then have "\<exists>cs. collect ?f (conditions n) = Inr cs" by (rule collect_total)
  then obtain cs where "collect ?f (conditions n) = Inr cs" ..
  then show ?thesis by (simp add: npc_to_dict_def)
qed

lemma cat_to_dict_ok:
  assumes "\<forall>g \<in> set (conditions (npc x)). \<forall>y \<in> set (snd g). opcode y = fst g"
  shows "\<exists>j. cat_to_dict E x = Inr j"
proof -
  from npc_to_dict_ok [OF assms] obtain d where "npc_to_dict E (npc x) = Inr d" ..
  then show ?thesis by (simp add: cat_to_dict_def)
qed

lemma returned_coin_is_listed:
  assumes "run_generator E bg c = (tr, Inr cats)" and "x \<in> set cats"
  shows "npc x \<in> set (npc_list (get_name_puzzle_conditions E bg (MAX_BLOCK_COST_CLVM c)
                          (COST_PER_BYTE c) False))"
proof -
  let ?npcs = "npc_list (get_name_puzzle_conditions E bg (MAX_BLOCK_COST_CLVM c)
                 (COST_PER_BYTE c) False)"
  from assms(1) obtain t where "for_npcs E bg c [] ?npcs = (t, Inr cats)"
    by (rule run_generator_returns)
  from for_npcs_returns [OF this] obtain new where
    "cats = [] @ new" "map npc new = filter (puzzle_matches E bg c) ?npcs"
    by blast
  then have "map npc cats = filter (puzzle_matches E bg c) ?npcs" by simp
  moreover from assms(2) have "npc x \<in> set (map npc cats)" by simp
  ultimately show ?thesis by simp
qed

text \<open>
  Claim C7. Every coin record of the execution result being one the assembler built,
  each condition group of each record returned has only conditions whose opcode is the
  group's key; \<open>condition_list_to_dict\<close> then returns the list of the serialised
  conditions, and the whole record serialises, so the assertion does not fail. The
  assertion is there: on any group, \<open>condition_list_to_dict\<close> raises \<open>AssertionError\<close>
  exactly when some condition of the group has another opcode than the key.
\<close>

theorem grouping_invariant_when_serialised:
  assumes "\<forall>n \<in> set (npc_list (get_name_puzzle_conditions E bg (MAX_BLOCK_COST_CLVM c)
                    (COST_PER_BYTE c) False)).
             \<exists>name ph raw. n = assemble_npc name ph raw"
      and "run_generator E bg c = (tr, Inr cats)"
      and "x \<in> set cats"
      and "g \<in> set (conditions (npc x))"
  shows "(\<forall>cwa \<in> set (snd g). opcode cwa = fst g)
       \<and> condition_list_to_dict E g
           = Inr (JList (map (condition_with_args_to_dict E) (snd g)))
       \<and> (\<exists>j. cat_to_dict E x = Inr j)
       \<and> (\<forall>g'. (condition_list_to_dict E g' = Inl AssertionError)
                 = (\<not> (\<forall>cwa \<in> set (snd g'). opcode cwa = fst g')))"
proof -
  from assms(2,3) have "npc x \<in> set (npc_list (get_name_puzzle_conditions E bg
      (MAX_BLOCK_COST_CLVM c) (COST_PER_BYTE c) False))"
    by (rule returned_coin_is_listed)
  with assms(1) have "\<exists>name ph raw. npc x = assemble_npc name ph raw" by (rule bspec)
  then obtain name ph raw where built: "npc x = assemble_npc name ph raw" by blast
  have inv: "\<forall>g \<in> set (conditions (npc x)). \<forall>y \<in> set (snd g). opcode y = fst g"
    unfolding built by (rule assemble_npc_grouped)
  from inv assms(4) have one: "\<forall>cwa \<in> set (snd g). opcode cwa = fst g" by (rule bspec)
  from one have two: "condition_list_to_dict E g
      = Inr (JList (map (condition_with_args_to_dict E) (snd g)))"
    by (rule condition_list_to_dict_ok)
  from inv have three: "\<exists>j. cat_to_dict E x = Inr j" by (rule cat_to_dict_ok)
  have four: "\<forall>g'. (condition_list_to_dict E g' = Inl AssertionError)
                 = (\<not> (\<forall>cwa \<in> set (snd g'). opcode cwa = fst g'))"
    by (intro allI) (rule condition_list_to_dict_assert)
  from one two three four show ?thesis by (intro conjI)
qed

section \<open>Worked examples\<close>



theorem execution_error_aborts_witness:
  "run_generator (demo_env (Some 7) [demo_npc_a]) demo_generator demo_constants
     = ([Execute demo_generator], Inl (ConsensusError 7))"
  using execution_error_aborts [of "demo_env (Some 7) [demo_npc_a]" demo_generator demo_constants 7]
  by (simp add: demo_env_def)

theorem absent_generator_asymmetry_witness:
  "run_full_block (demo_env None [])
       \<lparr>transactions_generator = None, transactions_generator_ref_list = [7]\<rparr> demo_constants
     = ([ReadRecord 7], Inl RuntimeError)
   \<and> run_generator_with_args (demo_env None []) (Some []) [] demo_constants = ([], Inr [])"
proof -
  let ?E = "demo_env None []"
  let ?b = "\<lparr>transactions_generator = None, transactions_generator_ref_list = [7]\<rparr>
              :: nat FullBlock"
  have h: "transactions_generator ?b = None" by simp
  have r: "ref_list_to_args ?E (transactions_generator_ref_list ?b)
             = ([ReadRecord 7], Inr [\<lparr>block_height = 7, generator = 1\<rparr>])"
    by (simp add: ref_list_to_args_def io_eval demo_env_def py_str_def)
  from absent_generator_asymmetry [OF h, where E = ?E and c = demo_constants
      and generator_args = "[]"] r
  show ?thesis by blast
qed

theorem reference_load_precedes_generator_check_witness:
  "run_full_block (demo_env None [])
       \<lparr>transactions_generator = None, transactions_generator_ref_list = [7, 8]\<rparr> demo_constants
     = ([ReadRecord 7, ReadRecord 8], Inl FileNotFoundError)
   \<and> run_json_block_file (demo_env None [])
       \<lparr>json_transactions_generator = None, json_transactions_generator_ref_list = [7, 8]\<rparr>
       demo_constants
     = ([ReadRecord 7, ReadRecord 8], Inl FileNotFoundError)"
proof -
  let ?E = "demo_env None []"
  have h1: "\<forall>g \<in> set [7]. \<exists>s p. read_generator_json ?E g = Inr s \<and> fromhex ?E s = Inr p"
    by (simp add: demo_env_def py_str_def)
  have h2: "read_generator_json ?E 8 = Inl FileNotFoundError"
    by (simp add: demo_env_def)
  from reference_load_precedes_generator_check [OF h1 h2, where post = "[]"
      and block = "\<lparr>transactions_generator = None, transactions_generator_ref_list = [7, 8]\<rparr>"
      and full_block = "\<lparr>json_transactions_generator = None,
                          json_transactions_generator_ref_list = [7, 8]\<rparr>"
      and c = demo_constants]
  show ?thesis by simp
qed

text \<open>
  Claim C10 as stated fails: a \<open>CREATE_COIN\<close> condition of four elements whose fourth
  element is the empty list reaches the scan with \<open>b''\<close> in fourth place; the run does not
  raise and returns the record with the empty memo. A value with an empty Python list in
  it is not one \<open>as_python()\<close> builds.
\<close>

theorem empty_payload_counterexample:
  "clvm_value (PList demo_empty_payload_conditions)
   \<and> \<not> clvm_value (PList [PList [PBytes [51], PBytes [9], PBytes [2], PList []]])
   \<and> extract_memo [51] (PList demo_empty_payload_conditions) = Inr []
   \<and> run_generator (demo_env_returning (PList demo_empty_payload_conditions)) demo_generator
         demo_constants
       = ([Execute demo_generator, Resolve [1], MatchCat 10, RunPuzzle 10 11],
          Inr [\<lparr>tail_hash = py_str ''abcd'', memo = [], npc = demo_npc_a\<rparr>])"
proof -
  have e: "extract_memo [51] (PList demo_empty_payload_conditions) = Inr []"
    by (simp add: extract_memo_def demo_empty_payload_conditions_def scan_condition_def)
  have v: "clvm_value (PList demo_empty_payload_conditions)"
    by (simp add: demo_empty_payload_conditions_def)
  have n: "\<not> clvm_value (PList [PList [PBytes [51], PBytes [9], PBytes [2], PList []]])"
    by simp
  show ?thesis
    by (simp only: e v n demo_returning_run) simp
qed

theorem empty_payload_is_passed_over_witness:
  "clvm_value (PList [PBytes [51], PBytes [9], PBytes [2], PBytes []])
   \<and> scan_condition [51] [] (PList [PBytes [51], PBytes [9], PBytes [2], PBytes []])
       = Inr Continue
   \<and> \<not> qualifies [51] (PList [PBytes [51], PBytes [9], PBytes [2], PBytes []])"
proof -
  have h: "clvm_value (PList [PBytes [51], PBytes [9], PBytes [2], PBytes []])" by simp
  from empty_payload_is_passed_over [OF h, of "[51]" "[]"] h show ?thesis by simp
qed

theorem tail_hash_rendering_witness:
  "\<exists>k puzzle solution a th b.
     get_puzzle_and_solution_for_coin (demo_env None [demo_npc_b, demo_npc_a]) demo_generator
         (coin_name (npc demo_cat)) (MAX_BLOCK_COST_CLVM demo_constants)
       = Inr (k, puzzle, solution)
   \<and> match_cat_puzzle (demo_env None [demo_npc_b, demo_npc_a]) puzzle = (True, [a, th, b])
   \<and> tail_hash demo_cat
       = drop 2 (bytes_hex (program_bytes (demo_env None [demo_npc_b, demo_npc_a]) th))
   \<and> tail_hash demo_cat
       = bytes_hex (tl (program_bytes (demo_env None [demo_npc_b, demo_npc_a]) th))
   \<and> set (tail_hash demo_cat) \<subseteq> set (py_str ''0123456789abcdef'')"
  using tail_hash_rendering [OF demo_run, of demo_cat] by simp

theorem cat_records_follow_matching_coins_witness:
  "map npc [demo_cat]
     = filter (puzzle_matches (demo_env None [demo_npc_b, demo_npc_a]) demo_generator
                 demo_constants)
         [demo_npc_b, demo_npc_a]
   \<and> \<not> puzzle_matches (demo_env None [demo_npc_b, demo_npc_a]) demo_generator demo_constants
         demo_npc_b"
proof -
  from cat_records_follow_matching_coins [OF demo_run]
  have "map npc [demo_cat]
     = filter (puzzle_matches (demo_env None [demo_npc_b, demo_npc_a]) demo_generator
                 demo_constants)
         (npc_list (get_name_puzzle_conditions (demo_env None [demo_npc_b, demo_npc_a])
            demo_generator (MAX_BLOCK_COST_CLVM demo_constants)
            (COST_PER_BYTE demo_constants) False))"
    by blast
  then show ?thesis
    by (simp add: demo_env_def puzzle_matches_def demo_npc_b_def)
qed

theorem every_coin_is_resolved_witness:
  "filter is_resolve
       [Execute demo_generator, Resolve [2], MatchCat 20, Resolve [1], MatchCat 10,
        RunPuzzle 10 11]
     = map (\<lambda>n. Resolve (coin_name n)) [demo_npc_b, demo_npc_a]
   \<and> (\<exists>e. snd (run_generator (demo_env None [demo_npc_a, demo_npc_d]) demo_generator
                 demo_constants) = Inl e)"
proof -
  let ?E = "demo_env None [demo_npc_a, demo_npc_d]"
  let ?R = "run_generator ?E demo_generator demo_constants"
  from every_coin_is_resolved [OF demo_run]
  have "filter is_resolve
       [Execute demo_generator, Resolve [2], MatchCat 20, Resolve [1], MatchCat 10,
        RunPuzzle 10 11]
     = map (\<lambda>n. Resolve (coin_name n))
         (npc_list (get_name_puzzle_conditions (demo_env None [demo_npc_b, demo_npc_a])
            demo_generator (MAX_BLOCK_COST_CLVM demo_constants)
            (COST_PER_BYTE demo_constants) False))"
    by blast
  then have one: "filter is_resolve
       [Execute demo_generator, Resolve [2], MatchCat 20, Resolve [1], MatchCat 10,
        RunPuzzle 10 11]
     = map (\<lambda>n. Resolve (coin_name n)) [demo_npc_b, demo_npc_a]"
    by (simp add: demo_env_def)
  have r: "?R = (fst ?R, snd ?R)" by simp
  have mem: "demo_npc_d \<in> set (npc_list (get_name_puzzle_conditions ?E demo_generator
               (MAX_BLOCK_COST_CLVM demo_constants) (COST_PER_BYTE demo_constants) False))"
    by (simp add: demo_env_def)
  have fail: "get_puzzle_and_solution_for_coin ?E demo_generator (coin_name demo_npc_d)
                (MAX_BLOCK_COST_CLVM demo_constants) = Inl CoinNotFound"
    by (simp add: demo_defs)
  from every_coin_is_resolved [OF r] mem fail have "\<exists>e. snd ?R = Inl e" by blast
  with one show ?thesis by blast
qed

text \<open>
  Claim C6 as stated fails: coin \<open>[1]\<close> is a CAT with a valid memo and is processed first,
  coin \<open>[3]\<close> carries memo bytes that are not UTF-8, and the run raises
  \<open>UnicodeDecodeError\<close> instead of returning the record of coin \<open>[1]\<close>.
\<close>

theorem invalid_memo_counterexample:
  "run_generator (demo_env None [demo_npc_a, demo_npc_c]) demo_generator demo_constants
     = ([Execute demo_generator, Resolve [1], MatchCat 10, RunPuzzle 10 11,
         Resolve [3], MatchCat 30, RunPuzzle 30 31],
        Inl UnicodeDecodeError)"
  by (simp add: run_generator_def process_npc_def io_eval demo_defs demo_extract_memo
       demo_bad_memo)

theorem invalid_memo_aborts_run_witness:
  "\<exists>tr e. run_generator (demo_env None [demo_npc_a, demo_npc_c]) demo_generator demo_constants
            = (tr, Inl e)"
proof -
  let ?E = "demo_env None [demo_npc_a, demo_npc_c]"
  let ?xs = "[PBytes [51], PBytes [9], PBytes [2],
              PList [PBytes retirement_sentinel, PBytes [255]]]"
  have h1: "demo_npc_c \<in> set (npc_list (get_name_puzzle_conditions ?E demo_generator
               (MAX_BLOCK_COST_CLVM demo_constants) (COST_PER_BYTE demo_constants) False))"
    by (simp add: demo_env_def)
  have h2: "get_puzzle_and_solution_for_coin ?E demo_generator (coin_name demo_npc_c)
              (MAX_BLOCK_COST_CLVM demo_constants) = Inr (0, 30, 31)"
    by (simp add: demo_defs)
  have h3: "match_cat_puzzle ?E 30 = (True, [100, 101, 102])"
    by (simp add: demo_env_def)
  have h4: "program_run ?E 30 31 = Inr 32"
    by (simp add: demo_env_def)
  have h5: "as_python ?E 32 = PList demo_bad_conditions"
    by (simp add: demo_env_def)
  have h6: "find (qualifies (CREATE_COIN ?E)) demo_bad_conditions = Some (PList ?xs)"
    by (simp add: demo_env_def demo_bad_conditions_def qualifies_def)
  have h7: "?xs ! 3 = PList [PBytes retirement_sentinel, PBytes [255]]" by simp
  have h8: "2 \<le> length [PBytes retirement_sentinel, PBytes [255]]" by simp
  have h9: "[PBytes retirement_sentinel, PBytes [255]] ! 1 = PBytes [255]" by simp
  have h10: "decode_utf8 [255] = Inl UnicodeDecodeError"
    by (simp add: decode_utf8_def)
  from invalid_memo_aborts_run [OF h1 h2 h3 h4 h5 h6 h7 h8 h9 h10] show ?thesis .
qed

theorem grouping_invariant_when_serialised_witness:
  "demo_npc_a = assemble_npc [1] [10] [([51], [[7], [1]]), ([50], [[8]]), ([51], [[9], [2]])]
   \<and> opcode \<lparr>opcode = [51], vars = [[9], [2]]\<rparr> = [51]
   \<and> condition_list_to_dict (demo_env None [demo_npc_b, demo_npc_a])
        ([51], [\<lparr>opcode = [51], vars = [[7], [1]]\<rparr>, \<lparr>opcode = [51], vars = [[9], [2]]\<rparr>])
       = Inr (JList
           [JDict [(py_str ''condition_opcode'', JStr (py_str ''CREATE_COIN'')),
                   (py_str ''arguments'', JList [JStr (py_str ''07''), JStr (py_str ''01'')])],
            JDict [(py_str ''condition_opcode'', JStr (py_str ''CREATE_COIN'')),
                   (py_str ''arguments'', JList [JStr (py_str ''09''), JStr (py_str ''02'')])]])
   \<and> (\<exists>j. cat_to_dict (demo_env None [demo_npc_b, demo_npc_a]) demo_cat = Inr j)
   \<and> condition_list_to_dict (demo_env None [demo_npc_b, demo_npc_a])
        ([50], [\<lparr>opcode = [51], vars = [[7], [1]]\<rparr>])
       = Inl AssertionError"
proof -
  let ?E = "demo_env None [demo_npc_b, demo_npc_a]"
  let ?g = "(([51], [\<lparr>opcode = [51], vars = [[7], [1]]\<rparr>, \<lparr>opcode = [51], vars = [[9], [2]]\<rparr>])
               :: bytes \<times> ConditionWithArgs list)"
  let ?bad = "(([50], [\<lparr>opcode = [51], vars = [[7], [1]]\<rparr>])
                 :: bytes \<times> ConditionWithArgs list)"
  have a: "demo_npc_a
             = assemble_npc [1] [10] [([51], [[7], [1]]), ([50], [[8]]), ([51], [[9], [2]])]"
    by (simp add: demo_npc_a_def assemble_npc_def group_conditions_def normalize_condition_def)
  have b: "demo_npc_b = assemble_npc [2] [20] []"
    by (simp add: demo_npc_b_def assemble_npc_def group_conditions_def)
  have h1: "\<forall>n \<in> set (npc_list (get_name_puzzle_conditions ?E demo_generator
                (MAX_BLOCK_COST_CLVM demo_constants) (COST_PER_BYTE demo_constants) False)).
             \<exists>name ph raw. n = assemble_npc name ph raw"
  proof -
    have "npc_list (get_name_puzzle_conditions ?E demo_generator
                (MAX_BLOCK_COST_CLVM demo_constants) (COST_PER_BYTE demo_constants) False)
            = [demo_npc_b, demo_npc_a]"
      by (simp add: demo_env_def)
    moreover have "\<exists>name ph raw. demo_npc_a = assemble_npc name ph raw" using a by blast
    moreover have "\<exists>name ph raw. demo_npc_b = assemble_npc name ph raw" using b by blast
    ultimately show ?thesis by simp
  qed
  have h3: "demo_cat \<in> set [demo_cat]" by simp
  have h4: "?g \<in> set (conditions (npc demo_cat))"
    by (simp add: demo_cat_def demo_npc_a_def)
  from grouping_invariant_when_serialised [OF h1 demo_run h3 h4]
  have r: "(\<forall>cwa \<in> set (snd ?g). opcode cwa = fst ?g)
       \<and> condition_list_to_dict ?E ?g
           = Inr (JList (map (condition_with_args_to_dict ?E) (snd ?g)))
       \<and> (\<exists>j. cat_to_dict ?E demo_cat = Inr j)
       \<and> (\<forall>g'. (condition_list_to_dict ?E g' = Inl AssertionError)
                 = (\<not> (\<forall>cwa \<in> set (snd g'). opcode cwa = fst g')))" .
  from r have r2: "condition_list_to_dict ?E ?g
           = Inr (JList (map (condition_with_args_to_dict ?E) (snd ?g)))" by blast
  from r have r3: "\<exists>j. cat_to_dict ?E demo_cat = Inr j" by blast
  from r have "(condition_list_to_dict ?E ?bad = Inl AssertionError)
                 = (\<not> (\<forall>cwa \<in> set (snd ?bad). opcode cwa = fst ?bad))"
    by blast
  then have r4: "condition_list_to_dict ?E ?bad = Inl AssertionError"
    by simp
  have r2': "map (condition_with_args_to_dict ?E) (snd ?g)
      = [JDict [(py_str ''condition_opcode'', JStr (py_str ''CREATE_COIN'')),
                   (py_str ''arguments'', JList [JStr (py_str ''07''), JStr (py_str ''01'')])],
            JDict [(py_str ''condition_opcode'', JStr (py_str ''CREATE_COIN'')),
                   (py_str ''arguments'', JList [JStr (py_str ''09''), JStr (py_str ''02'')])]]"
    by (simp add: condition_with_args_to_dict_def demo_env_def bytes_hex_def byte_hex_def
          hexdigit_def py_str_def)
  from a r2 r2' r3 r4 show ?thesis by simp
qed

end
